theory Spec2Isabelle
  imports Complex_Main
begin

section \<open>Keystroke feature extraction (\<open>useKeystrokeAnalyzer\<close>, \<open>extractFeatures\<close>)\<close>

text \<open>
  JavaScript numbers are modelled as real numbers: arithmetic is exact, and neither
  rounding nor overflow occurs.  This is the reading of every function below.  Three
  refinements are made where the source needs them.  Where the code can produce
  \<open>NaN\<close> from finite operands (the quotient \<open>0 / 0\<close>, an addition to an array slot
  that does not exist) the model says so, with the type \<open>number\<close> of the voice section.
  The aggregator of voice frames is written over a rounding function, so that it can also
  be read with every result rounded to 53 significant bits.  And the typing speed and the
  aggregator are given a second time in IEEE double arithmetic, with overflow, underflow,
  infinities and \<open>NaN\<close>, in the last section of the definitions.
\<close>

datatype EventType = keydown | keyup

record KeystrokeEvent =
  key :: string
  type :: EventType
  timestamp :: real

record ExtractedFeatures =
  holdTimes :: "real list"
  ddTimes :: "real list"
  udTimes :: "real list"
  typingSpeed :: real
  flightTime :: real
  errorRate :: real
  pressPressure :: real
  features :: "real list"

text \<open>\<open>const PASSWORD_LENGTH = 11\<close>, local to \<open>extractFeatures\<close>.\<close>

definition PASSWORD_LENGTH :: nat where
  "PASSWORD_LENGTH = 11"

text \<open>\<open>keyups.find((u) => u.key === key && u.timestamp > downTs)\<close>: the first
  release of that key with a strictly later timestamp, \<open>None\<close> for \<open>undefined\<close>.\<close>

definition findUp :: "KeystrokeEvent list \<Rightarrow> string \<Rightarrow> real \<Rightarrow> KeystrokeEvent option" where
  "findUp keyups k downTs = List.find (\<lambda>u. key u = k \<and> timestamp u > downTs) keyups"

text \<open>The \<open>forEach\<close> over \<open>matchedKeys\<close> that pushes one hold time per press that has
  a release; a press without one pushes nothing.\<close>

fun holdLoop :: "KeystrokeEvent list \<Rightarrow> (string \<times> real) list \<Rightarrow> real list" where
  "holdLoop keyups [] = []"
| "holdLoop keyups ((k, downTs) # rest) =
     (case findUp keyups k downTs of
        Some upEvent \<Rightarrow> (timestamp upEvent - downTs) # holdLoop keyups rest
      | None \<Rightarrow> holdLoop keyups rest)"

text \<open>\<open>for (i = 0; i < matchedKeys.length - 1; i++) ddTimes.push(press2 - press1)\<close>.\<close>

fun ddLoop :: "(string \<times> real) list \<Rightarrow> real list" where
  "ddLoop (p1 # p2 # rest) = (snd p2 - snd p1) # ddLoop (p2 # rest)"
| "ddLoop [p1] = []"
| "ddLoop [] = []"

text \<open>The flight-time loop, with its fallback to the press time when the current key has
  no release.\<close>

fun udLoop :: "KeystrokeEvent list \<Rightarrow> (string \<times> real) list \<Rightarrow> real list" where
  "udLoop keyups (cur # nxt # rest) =
     (case findUp keyups (fst cur) (snd cur) of
        Some currentUp \<Rightarrow> snd nxt - timestamp currentUp
      | None \<Rightarrow> snd nxt - snd cur) # udLoop keyups (nxt # rest)"
| "udLoop keyups [cur] = []"
| "udLoop keyups [] = []"

text \<open>\<open>xs.reduce((sum, t) => sum + t, 0)\<close>.\<close>

definition reduceSum :: "real list \<Rightarrow> real" where
  "reduceSum xs = foldl (\<lambda>sum t. sum + t) 0 xs"

text \<open>\<open>Math.max(a, b, c) || 0.001\<close>: the maximum, replaced by \<open>0.001\<close> when it is
  falsy, that is when it is \<open>0\<close>.\<close>

definition totalTime :: "real list \<Rightarrow> real list \<Rightarrow> real list \<Rightarrow> real" where
  "totalTime hs ds us =
     (let m = max (max (reduceSum hs) (reduceSum ds)) (reduceSum us)
      in if m = 0 then 0.001 else m)"

text \<open>\<open>while (featureVector.length < PASSWORD_LENGTH * 3 + 1) featureVector.push(0)\<close>.\<close>

function padLoop :: "nat \<Rightarrow> real list \<Rightarrow> real list" where
  "padLoop target featureVector =
     (if length featureVector < target then padLoop target (featureVector @ [0])
      else featureVector)"
  by pat_completeness auto
termination
  by (relation "measure (\<lambda>(target, featureVector). target - length featureVector)") auto

declare padLoop.simps [simp del]

text \<open>
  \<open>extractFeatures\<close> in exact arithmetic.  In double arithmetic the quotient
  \<open>totalTime / 1000\<close> can underflow and the typing speed overflow; that reading of
  the typing speed is \<open>typingSpeed64\<close> in the section on IEEE double arithmetic.
\<close>

definition extractFeatures :: "KeystrokeEvent list \<Rightarrow> ExtractedFeatures" where
  "extractFeatures data =
     (let keydowns = filter (\<lambda>k. type k = keydown) data;
          keyups = filter (\<lambda>k. type k = keyup) data;
          matchedKeys = map (\<lambda>k. (key k, timestamp k)) keydowns;
          hs = holdLoop keyups matchedKeys;
          ds = ddLoop matchedKeys;
          us = udLoop keyups matchedKeys;
          total = totalTime hs ds us;
          speed = real (length matchedKeys) / (total / 1000);
          flight = (if length us > 0 then reduceSum us / real (length us) else 0);
          errors = real (length (filter (\<lambda>k. key k = ''Backspace'') data));
          meanHoldTime = (if length hs > 0 then reduceSum hs / real (length hs) else 0);
          pressure =
            (if length hs > 0
             then sqrt (foldl (\<lambda>sum t. sum + (t - meanHoldTime)\<^sup>2) 0 hs / real (length hs))
             else 0);
          featureVector =
            take PASSWORD_LENGTH hs @ take (PASSWORD_LENGTH - 1) ds
              @ take (PASSWORD_LENGTH - 1) us @ [speed, flight, errors, pressure]
      in \<lparr> holdTimes = hs, ddTimes = ds, udTimes = us, typingSpeed = speed,
           flightTime = flight, errorRate = errors, pressPressure = pressure,
           features = padLoop (PASSWORD_LENGTH * 3 + 1) featureVector \<rparr>)"

section \<open>Voice features and their comparison\<close>

subsection \<open>Numbers that may be \<open>NaN\<close>\<close>

text \<open>
  A JavaScript number that the code computes from finite operands and that can still be
  \<open>NaN\<close>.  Every operation propagates \<open>NaN\<close>, as IEEE arithmetic, \<open>Math.sqrt\<close>
  and \<open>Math.max\<close> do.
\<close>

datatype number = Num real | NaN

fun nplus :: "number \<Rightarrow> number \<Rightarrow> number" where
  "nplus (Num a) (Num b) = Num (a + b)"
| "nplus _ _ = NaN"

fun nminus :: "number \<Rightarrow> number \<Rightarrow> number" where
  "nminus (Num a) (Num b) = Num (a - b)"
| "nminus _ _ = NaN"

fun ntimes :: "number \<Rightarrow> number \<Rightarrow> number" where
  "ntimes (Num a) (Num b) = Num (a * b)"
| "ntimes _ _ = NaN"

text \<open>Division by a constant or a count that is not zero.\<close>

fun ndiv :: "number \<Rightarrow> real \<Rightarrow> number" where
  "ndiv (Num a) c = Num (a / c)"
| "ndiv NaN c = NaN"

fun nsqrt :: "number \<Rightarrow> number" where
  "nsqrt (Num a) = Num (sqrt a)"
| "nsqrt NaN = NaN"

text \<open>\<open>Math.max(0, x)\<close>.\<close>

fun nmax0 :: "number \<Rightarrow> number" where
  "nmax0 (Num a) = Num (max 0 a)"
| "nmax0 NaN = NaN"

subsection \<open>Data model\<close>

text \<open>
  The interfaces \<open>VoiceFeatures\<close> and \<open>AggregatedVoiceFeatures\<close>.  The optional
  fields that no function reads or writes (\<open>formants\<close>, \<open>formantsMean\<close>,
  \<open>formantsVariance\<close>, and \<open>speakingRate\<close> of a frame) are left out.  A record
  field has one name in the whole theory, so the fields \<open>jitter\<close> and \<open>shimmer\<close> of
  a profile are \<open>jitterA\<close> and \<open>shimmerA\<close> here.
\<close>

record Pitch =
  mean :: real
  variance :: real
  range :: real

record VoiceFeatures =
  mfcc :: "real list"
  spectralCentroid :: real
  spectralFlatness :: real
  spectralRolloff :: real
  spectralFlux :: real
  perceptualSpread :: real
  perceptualSharpness :: real
  spectralKurtosis :: real
  zcr :: real
  rms :: real
  energy :: real
  pitch :: "Pitch option"
  jitter :: "real option"
  shimmer :: "real option"

text \<open>
  The scalar fields of a profile are finite numbers; the entries of the two MFCC vectors
  are of type \<open>number\<close>, because \<open>aggregateFeatures\<close> can write \<open>NaN\<close> into
  them.  An optional field that is absent (\<open>undefined\<close>) is \<open>None\<close>.
\<close>

record AggregatedVoiceFeatures =
  mfccMean :: "number list"
  mfccVariance :: "number list"
  spectralCentroidMean :: real
  spectralCentroidVariance :: real
  spectralFlatnessMean :: real
  spectralFlatnessVariance :: real
  spectralRolloffMean :: real
  spectralRolloffVariance :: real
  spectralFluxMean :: real
  spectralFluxVariance :: real
  perceptualSpreadMean :: real
  perceptualSpreadVariance :: real
  perceptualSharpnessMean :: real
  perceptualSharpnessVariance :: real
  spectralKurtosisMean :: real
  spectralKurtosisVariance :: real
  zcrMean :: real
  zcrVariance :: real
  rmsMean :: real
  rmsVariance :: real
  energyMean :: real
  energyVariance :: real
  pitchMean :: "real option"
  pitchVariance :: "real option"
  pitchRange :: "real option"
  jitterA :: "real option"
  shimmerA :: "real option"
  speakingRate :: "real option"

record DetailedMetrics =
  mfccDistance :: number
  spectralCentroidDiff :: real
  zcrDiff :: real
  pitchDiff :: "real option"
  energyDiff :: real

record RobustSimilarityResult =
  overallSimilarity :: number
  pitchNormalizedSimilarity :: number
  tempoNormalizedSimilarity :: number
  spectralSimilarity :: number
  voiceQualitySimilarity :: number
  confidenceScore :: number
  detailedMetrics :: DetailedMetrics

subsection \<open>Normalisation\<close>

text \<open>
  An optional number is truthy when it is present and not \<open>0\<close>.  Each normaliser
  copies its argument and overwrites the fields it normalises.
\<close>

definition normalizePitchFeatures :: "AggregatedVoiceFeatures \<Rightarrow> AggregatedVoiceFeatures" where
  "normalizePitchFeatures feats =
     (case pitchMean feats of
        Some p \<Rightarrow> if p \<noteq> 0 \<and> p > 0 then feats\<lparr>pitchMean := Some (ln p)\<rparr> else feats
      | None \<Rightarrow> feats)"

definition normalizeTempoFeatures :: "AggregatedVoiceFeatures \<Rightarrow> AggregatedVoiceFeatures" where
  "normalizeTempoFeatures feats =
     (let normalized =
            (case speakingRate feats of
               Some r \<Rightarrow> if r \<noteq> 0 \<and> r > 0 then feats\<lparr>speakingRate := Some (ln r)\<rparr> else feats
             | None \<Rightarrow> feats)
      in if zcrMean feats > 0 then normalized\<lparr>zcrMean := ln (zcrMean feats + 1)\<rparr>
         else normalized)"

definition normalizeSpectralFeatures :: "AggregatedVoiceFeatures \<Rightarrow> AggregatedVoiceFeatures" where
  "normalizeSpectralFeatures feats =
     (let n1 = (if energyMean feats > 0
                then feats\<lparr>energyMean := ln (energyMean feats + 1)\<rparr> else feats);
          n2 = (if rmsMean feats > 0
                then n1\<lparr>rmsMean := ln (rmsMean feats + 1)\<rparr> else n1)
      in if spectralCentroidMean feats > 0
         then n2\<lparr>spectralCentroidMean := ln (spectralCentroidMean feats)\<rparr> else n2)"

subsection \<open>The similarity scorer (\<open>calculateRobustSimilarityScore\<close>)\<close>

text \<open>
  The local variables of \<open>calculateRobustSimilarityScore\<close>, one definition each, in the
  order of the source.  The MFCC loop runs over the common prefix of the two mean
  vectors; when that prefix is empty the loop body never runs and the quotient
  \<open>mfccDistance / mfccLength\<close> is \<open>0 / 0\<close>, which is \<open>NaN\<close>.
\<close>

definition mfccLength_of :: "AggregatedVoiceFeatures \<Rightarrow> AggregatedVoiceFeatures \<Rightarrow> nat" where
  "mfccLength_of features1 features2 = min (length (mfccMean features1)) (length (mfccMean features2))"

definition mfccSquares :: "AggregatedVoiceFeatures \<Rightarrow> AggregatedVoiceFeatures \<Rightarrow> number" where
  "mfccSquares features1 features2 =
     foldl (\<lambda>acc i. let diff = nminus (mfccMean features1 ! i) (mfccMean features2 ! i)
                     in nplus acc (ntimes diff diff))
       (Num 0) [0 ..< mfccLength_of features1 features2]"

definition mfccDistance_of :: "AggregatedVoiceFeatures \<Rightarrow> AggregatedVoiceFeatures \<Rightarrow> number" where
  "mfccDistance_of features1 features2 =
     (if mfccLength_of features1 features2 = 0 then NaN
      else nsqrt (ndiv (mfccSquares features1 features2) (real (mfccLength_of features1 features2))))"

definition spectralCentroidDiff_of :: "AggregatedVoiceFeatures \<Rightarrow> AggregatedVoiceFeatures \<Rightarrow> real" where
  "spectralCentroidDiff_of features1 features2 =
     \<bar>spectralCentroidMean (normalizeSpectralFeatures features1)
        - spectralCentroidMean (normalizeSpectralFeatures features2)\<bar>"

definition spectralFlatnessDiff_of :: "AggregatedVoiceFeatures \<Rightarrow> AggregatedVoiceFeatures \<Rightarrow> real" where
  "spectralFlatnessDiff_of features1 features2 =
     \<bar>spectralFlatnessMean features1 - spectralFlatnessMean features2\<bar>"

definition spectralRolloffDiff_of :: "AggregatedVoiceFeatures \<Rightarrow> AggregatedVoiceFeatures \<Rightarrow> real" where
  "spectralRolloffDiff_of features1 features2 =
     \<bar>spectralRolloffMean features1 - spectralRolloffMean features2\<bar>"

definition zcrDiff_of :: "AggregatedVoiceFeatures \<Rightarrow> AggregatedVoiceFeatures \<Rightarrow> real" where
  "zcrDiff_of features1 features2 =
     \<bar>zcrMean (normalizeTempoFeatures features1) - zcrMean (normalizeTempoFeatures features2)\<bar>"

definition energyDiff_of :: "AggregatedVoiceFeatures \<Rightarrow> AggregatedVoiceFeatures \<Rightarrow> real" where
  "energyDiff_of features1 features2 =
     \<bar>energyMean (normalizeSpectralFeatures features1)
        - energyMean (normalizeSpectralFeatures features2)\<bar>"

text \<open>\<open>if (pitchNorm1.pitchMean && pitchNorm2.pitchMean)\<close>: both normalised pitch means
  must be present and not \<open>0\<close>; otherwise \<open>pitchDiff\<close> stays \<open>null\<close>.\<close>

definition pitchDiff_of :: "AggregatedVoiceFeatures \<Rightarrow> AggregatedVoiceFeatures \<Rightarrow> real option" where
  "pitchDiff_of features1 features2 =
     (case (pitchMean (normalizePitchFeatures features1),
            pitchMean (normalizePitchFeatures features2)) of
        (Some p1, Some p2) \<Rightarrow> if p1 \<noteq> 0 \<and> p2 \<noteq> 0 then Some \<bar>p1 - p2\<bar> else None
      | _ \<Rightarrow> None)"

definition perceptualSpreadDiff_of :: "AggregatedVoiceFeatures \<Rightarrow> AggregatedVoiceFeatures \<Rightarrow> real" where
  "perceptualSpreadDiff_of features1 features2 =
     \<bar>perceptualSpreadMean features1 - perceptualSpreadMean features2\<bar>"

definition perceptualSharpnessDiff_of :: "AggregatedVoiceFeatures \<Rightarrow> AggregatedVoiceFeatures \<Rightarrow> real" where
  "perceptualSharpnessDiff_of features1 features2 =
     \<bar>perceptualSharpnessMean features1 - perceptualSharpnessMean features2\<bar>"

definition mfccSimilarity_of :: "AggregatedVoiceFeatures \<Rightarrow> AggregatedVoiceFeatures \<Rightarrow> number" where
  "mfccSimilarity_of features1 features2 =
     nmax0 (nminus (Num 1) (ndiv (mfccDistance_of features1 features2) 5.0))"

definition spectralSimilarity_of :: "AggregatedVoiceFeatures \<Rightarrow> AggregatedVoiceFeatures \<Rightarrow> real" where
  "spectralSimilarity_of features1 features2 =
     max 0 (1 - ((0.4 * spectralCentroidDiff_of features1 features2) / 2.0
                 + (0.3 * spectralFlatnessDiff_of features1 features2) / 0.5
                 + (0.3 * spectralRolloffDiff_of features1 features2) / 2.0))"

definition voiceQualitySimilarity_of :: "AggregatedVoiceFeatures \<Rightarrow> AggregatedVoiceFeatures \<Rightarrow> real" where
  "voiceQualitySimilarity_of features1 features2 =
     max 0 (1 - ((0.5 * perceptualSpreadDiff_of features1 features2) / 0.5
                 + (0.5 * perceptualSharpnessDiff_of features1 features2) / 0.5))"

definition tempoSimilarity_of :: "AggregatedVoiceFeatures \<Rightarrow> AggregatedVoiceFeatures \<Rightarrow> real" where
  "tempoSimilarity_of features1 features2 =
     max 0 (1 - ((0.6 * zcrDiff_of features1 features2) / 1.0
                 + (0.4 * energyDiff_of features1 features2) / 2.0))"

definition pitchSimilarity_of :: "AggregatedVoiceFeatures \<Rightarrow> AggregatedVoiceFeatures \<Rightarrow> real" where
  "pitchSimilarity_of features1 features2 =
     (case pitchDiff_of features1 features2 of
        Some d \<Rightarrow> max 0 (1 - d / 1.5)
      | None \<Rightarrow> 0.7)"

text \<open>The confidence score: one minus the population variance of the five category
  similarities, floored at \<open>0\<close>.\<close>

definition confidence_of :: "number list \<Rightarrow> number" where
  "confidence_of featureConsistency =
     (let meanSimilarity =
            ndiv (foldl (\<lambda>a b. nplus a b) (Num 0) featureConsistency)
              (real (length featureConsistency));
          var =
            ndiv (foldl (\<lambda>sum sim. nplus sum (ntimes (nminus sim meanSimilarity)
                                                    (nminus sim meanSimilarity)))
                    (Num 0) featureConsistency)
              (real (length featureConsistency))
      in nmax0 (nminus (Num 1) var))"

definition calculateRobustSimilarityScore ::
  "AggregatedVoiceFeatures \<Rightarrow> AggregatedVoiceFeatures \<Rightarrow> RobustSimilarityResult" where
  "calculateRobustSimilarityScore features1 features2 =
     (let mfccSimilarity = mfccSimilarity_of features1 features2;
          spectralSim = Num (spectralSimilarity_of features1 features2);
          voiceQualitySim = Num (voiceQualitySimilarity_of features1 features2);
          tempoSimilarity = Num (tempoSimilarity_of features1 features2);
          pitchSimilarity = Num (pitchSimilarity_of features1 features2)
      in \<lparr> overallSimilarity =
             nplus (nplus (nplus (nplus (ntimes mfccSimilarity (Num 0.5))
                                        (ntimes spectralSim (Num 0.25)))
                                 (ntimes voiceQualitySim (Num 0.15)))
                          (ntimes tempoSimilarity (Num 0.05)))
                   (ntimes pitchSimilarity (Num 0.05)),
           pitchNormalizedSimilarity =
             nplus (nplus (ntimes mfccSimilarity (Num 0.7)) (ntimes spectralSim (Num 0.2)))
                   (ntimes pitchSimilarity (Num 0.1)),
           tempoNormalizedSimilarity =
             nplus (nplus (ntimes mfccSimilarity (Num 0.6)) (ntimes spectralSim (Num 0.3)))
                   (ntimes tempoSimilarity (Num 0.1)),
           spectralSimilarity = spectralSim,
           voiceQualitySimilarity = voiceQualitySim,
           confidenceScore =
             confidence_of [mfccSimilarity, spectralSim, voiceQualitySim, tempoSimilarity,
                            pitchSimilarity],
           detailedMetrics =
             \<lparr> mfccDistance = mfccDistance_of features1 features2,
               spectralCentroidDiff = spectralCentroidDiff_of features1 features2,
               zcrDiff = zcrDiff_of features1 features2,
               pitchDiff = pitchDiff_of features1 features2,
               energyDiff = energyDiff_of features1 features2 \<rparr> \<rparr>)"

text \<open>The legacy entry point.\<close>

definition calculateSimilarityScore :: "AggregatedVoiceFeatures \<Rightarrow> AggregatedVoiceFeatures \<Rightarrow> number" where
  "calculateSimilarityScore features1 features2 =
     overallSimilarity (calculateRobustSimilarityScore features1 features2)"

subsection \<open>Rounding\<close>

text \<open>
  An arithmetic operation of the source computes the exact result and rounds it to a
  double.  The aggregator is written over the rounding function, so that it can be read
  in two ways: with \<open>exact\<close>, which rounds nothing (the reading of numbers as reals
  that every other function of this theory uses), and with \<open>double\<close>, which rounds
  to the nearest number with 53 significant bits, ties to the even one.  The exponent of
  \<open>double\<close> is unbounded: overflow and subnormal numbers are not in it; they are in
  the section on IEEE double arithmetic.
\<close>

definition exact :: "real \<Rightarrow> real" where
  "exact x = x"

definition roundEven :: "real \<Rightarrow> int" where
  "roundEven m =
     (let f = \<lfloor>m\<rfloor>; r = m - of_int f
      in if r < 1 / 2 then f else if r > 1 / 2 then f + 1 else if even f then f else f + 1)"

definition double :: "real \<Rightarrow> real" where
  "double x =
     (if x = 0 then 0
      else let e = \<lfloor>log 2 \<bar>x\<bar>\<rfloor> - 52
           in of_int (roundEven (x / 2 powr of_int e)) * 2 powr of_int e)"

fun nround :: "(real \<Rightarrow> real) \<Rightarrow> number \<Rightarrow> number" where
  "nround rd (Num a) = Num (rd a)"
| "nround rd NaN = NaN"

subsection \<open>Aggregation (\<open>aggregateFeatures\<close>)\<close>

datatype error = Error string

text \<open>
  The inner MFCC loop, \<open>for (i = 0; i < feature.mfcc.length; i++) sums[i] += v[i]\<close>.
  The accumulator array has the length of the first frame's MFCC vector.  A frame with a
  longer vector writes past its end: the slot read is \<open>undefined\<close>, the sum is
  \<open>NaN\<close>, and the assignment extends the array by that slot.
\<close>

fun addInto :: "(real \<Rightarrow> real) \<Rightarrow> number list \<Rightarrow> real list \<Rightarrow> number list" where
  "addInto rd accs [] = accs"
| "addInto rd [] (v # vs) = NaN # addInto rd [] vs"
| "addInto rd (s # accs) (v # vs) = nround rd (nplus s (Num v)) # addInto rd accs vs"

definition mfccSums_of :: "(real \<Rightarrow> real) \<Rightarrow> VoiceFeatures list \<Rightarrow> number list" where
  "mfccSums_of rd frames =
     foldl (\<lambda>accs feature. addInto rd accs (mfcc feature))
       (replicate (length (mfcc (hd frames))) (Num 0)) frames"

definition mfccSquareSums_of :: "(real \<Rightarrow> real) \<Rightarrow> VoiceFeatures list \<Rightarrow> number list" where
  "mfccSquareSums_of rd frames =
     foldl (\<lambda>accs feature. addInto rd accs (map (\<lambda>v. rd (v * v)) (mfcc feature)))
       (replicate (length (mfcc (hd frames))) (Num 0)) frames"

text \<open>The scalar accumulators: \<open>xSum += feature.x\<close> and
  \<open>xSumSq += feature.x * feature.x\<close>, over the frames in order.\<close>

definition sumOf :: "(real \<Rightarrow> real) \<Rightarrow> (VoiceFeatures \<Rightarrow> real) \<Rightarrow> VoiceFeatures list \<Rightarrow> real" where
  "sumOf rd field frames = foldl (\<lambda>acc feature. rd (acc + field feature)) 0 frames"

definition sumSqOf :: "(real \<Rightarrow> real) \<Rightarrow> (VoiceFeatures \<Rightarrow> real) \<Rightarrow> VoiceFeatures list \<Rightarrow> real" where
  "sumSqOf rd field frames =
     foldl (\<lambda>acc feature. rd (acc + rd (field feature * field feature))) 0 frames"

definition meanOf :: "(real \<Rightarrow> real) \<Rightarrow> (VoiceFeatures \<Rightarrow> real) \<Rightarrow> VoiceFeatures list \<Rightarrow> real" where
  "meanOf rd field frames = rd (sumOf rd field frames / real (length frames))"

text \<open>\<open>xSumSq / count - xMean * xMean\<close>; nothing is applied to the difference.\<close>

definition varianceOf :: "(real \<Rightarrow> real) \<Rightarrow> (VoiceFeatures \<Rightarrow> real) \<Rightarrow> VoiceFeatures list \<Rightarrow> real" where
  "varianceOf rd field frames =
     rd (rd (sumSqOf rd field frames / real (length frames))
         - rd (meanOf rd field frames * meanOf rd field frames))"

text \<open>
  The aggregator over a rounding function.  A square that overflows, and the \<open>NaN\<close>
  that follows from it, are in \<open>aggregateFeatures64\<close> in the section on IEEE double
  arithmetic.
\<close>

definition aggregateFeaturesIn ::
  "(real \<Rightarrow> real) \<Rightarrow> VoiceFeatures list \<Rightarrow> error + AggregatedVoiceFeatures" where
  "aggregateFeaturesIn rd frames =
     (if length frames = 0 then Inl (Error ''No features to aggregate'')
      else
        let count = real (length frames);
            mfccSums = mfccSums_of rd frames;
            mfccSquareSums = mfccSquareSums_of rd frames
        in Inr \<lparr>
             mfccMean = map (\<lambda>s. nround rd (ndiv s count)) mfccSums,
             mfccVariance =
               map (\<lambda>i. nround rd
                           (nminus (nround rd (ndiv (mfccSquareSums ! i) count))
                                   (nround rd (ntimes (nround rd (ndiv (mfccSums ! i) count))
                                                      (nround rd (ndiv (mfccSums ! i) count))))))
                 [0 ..< length mfccSums],
             spectralCentroidMean = meanOf rd spectralCentroid frames,
             spectralCentroidVariance = varianceOf rd spectralCentroid frames,
             spectralFlatnessMean = meanOf rd spectralFlatness frames,
             spectralFlatnessVariance = varianceOf rd spectralFlatness frames,
             spectralRolloffMean = meanOf rd spectralRolloff frames,
             spectralRolloffVariance = varianceOf rd spectralRolloff frames,
             spectralFluxMean = meanOf rd spectralFlux frames,
             spectralFluxVariance = varianceOf rd spectralFlux frames,
             perceptualSpreadMean = meanOf rd perceptualSpread frames,
             perceptualSpreadVariance = varianceOf rd perceptualSpread frames,
             perceptualSharpnessMean = meanOf rd perceptualSharpness frames,
             perceptualSharpnessVariance = varianceOf rd perceptualSharpness frames,
             spectralKurtosisMean = meanOf rd spectralKurtosis frames,
             spectralKurtosisVariance = varianceOf rd spectralKurtosis frames,
             zcrMean = meanOf rd zcr frames,
             zcrVariance = varianceOf rd zcr frames,
             rmsMean = meanOf rd rms frames,
             rmsVariance = varianceOf rd rms frames,
             energyMean = meanOf rd energy frames,
             energyVariance = varianceOf rd energy frames,
             pitchMean = None, pitchVariance = None, pitchRange = None,
             jitterA = None, shimmerA = None, speakingRate = None \<rparr>)"

text \<open>The aggregator in exact arithmetic.\<close>

definition aggregateFeatures :: "VoiceFeatures list \<Rightarrow> error + AggregatedVoiceFeatures" where
  "aggregateFeatures frames = aggregateFeaturesIn exact frames"

subsection \<open>Quick validation (\<open>quickProcessVoiceAudio\<close>)\<close>

text \<open>
  Decoding is a capability of the browser (\<open>decodeAudioData\<close>, reached through
  \<open>blobToAudioBuffer\<close>): it is a parameter of the model, \<open>None\<close> when it rejects.
  \<open>channelData\<close> is \<open>getChannelData(0)\<close>.
\<close>

record AudioBuffer =
  duration :: real
  sampleRate :: real
  channelData :: "real list"

record Blob =
  size :: nat
  bytes :: "nat list"

text \<open>The RMS loop over the first \<open>Math.min(2048, audioData.length)\<close> samples.\<close>

definition leadingRms :: "real list \<Rightarrow> real" where
  "leadingRms audioData =
     (let sampleSize = min 2048 (length audioData);
          acc = foldl (\<lambda>acc i. acc + audioData ! i * audioData ! i) 0 [0 ..< sampleSize]
      in sqrt (acc / real sampleSize))"

definition quickProcessVoiceAudio :: "(Blob \<Rightarrow> AudioBuffer option) \<Rightarrow> Blob \<Rightarrow> bool" where
  "quickProcessVoiceAudio blobToAudioBuffer blob =
     (if size blob < 1000 then False
      else if size blob > 50 * 1024 * 1024 then False
      else case blobToAudioBuffer blob of
             None \<Rightarrow> True
           | Some audioBuffer \<Rightarrow>
               if duration audioBuffer < 0.5 then False
               else if length (channelData audioBuffer) < 512 then False
               else leadingRms (channelData audioBuffer) > 0.0001)"

section \<open>IEEE double arithmetic\<close>

text \<open>
  A double is a finite number, one of the two infinities, or \<open>NaN\<close>.  An operation on
  finite operands rounds the exact result: below \<open>2^-1022\<close> to the nearest multiple
  of \<open>2^-1074\<close> (the subnormal numbers, and 0), otherwise to 53 significant bits, ties
  to the even neighbour in both cases; a rounded magnitude of \<open>2^1024\<close> or more is an
  infinity.  The sign of a zero is not modelled: every zero is \<open>+0\<close>.
\<close>

datatype float64 = Finite real | PosInf | NegInf | NotANumber

definition infOf :: "bool \<Rightarrow> float64" where
  "infOf positive = (if positive then PosInf else NegInf)"

definition round64 :: "real \<Rightarrow> float64" where
  "round64 x =
     (if \<bar>x\<bar> * 2 ^ 1022 < 1 then Finite (of_int (roundEven (x * 2 ^ 1074)) / 2 ^ 1074)
      else if 2 ^ 1024 \<le> \<bar>double x\<bar> then infOf (0 < x)
      else Finite (double x))"

text \<open>Addition, negation and subtraction.\<close>

fun fadd :: "float64 \<Rightarrow> float64 \<Rightarrow> float64" where
  "fadd (Finite a) (Finite b) = round64 (a + b)"
| "fadd NotANumber y = NotANumber"
| "fadd x NotANumber = NotANumber"
| "fadd PosInf NegInf = NotANumber"
| "fadd NegInf PosInf = NotANumber"
| "fadd PosInf y = PosInf"
| "fadd NegInf y = NegInf"
| "fadd (Finite a) y = y"

fun fneg :: "float64 \<Rightarrow> float64" where
  "fneg (Finite a) = Finite (- a)"
| "fneg PosInf = NegInf"
| "fneg NegInf = PosInf"
| "fneg NotANumber = NotANumber"

definition fsub :: "float64 \<Rightarrow> float64 \<Rightarrow> float64" where
  "fsub x y = fadd x (fneg y)"

text \<open>Multiplication and division; a finite number divided by zero is an infinity, \<open>0 / 0\<close>
  is \<open>NaN\<close>.\<close>

fun fmul :: "float64 \<Rightarrow> float64 \<Rightarrow> float64" where
  "fmul (Finite a) (Finite b) = round64 (a * b)"
| "fmul NotANumber y = NotANumber"
| "fmul x NotANumber = NotANumber"
| "fmul (Finite a) PosInf = (if a = 0 then NotANumber else infOf (0 < a))"
| "fmul (Finite a) NegInf = (if a = 0 then NotANumber else infOf (a < 0))"
| "fmul PosInf (Finite b) = (if b = 0 then NotANumber else infOf (0 < b))"
| "fmul NegInf (Finite b) = (if b = 0 then NotANumber else infOf (b < 0))"
| "fmul PosInf PosInf = PosInf"
| "fmul NegInf NegInf = PosInf"
| "fmul PosInf NegInf = NegInf"
| "fmul NegInf PosInf = NegInf"

fun fdiv :: "float64 \<Rightarrow> float64 \<Rightarrow> float64" where
  "fdiv (Finite a) (Finite b) =
     (if b = 0 then (if a = 0 then NotANumber else infOf (0 < a)) else round64 (a / b))"
| "fdiv NotANumber y = NotANumber"
| "fdiv x NotANumber = NotANumber"
| "fdiv (Finite a) y = Finite 0"
| "fdiv PosInf (Finite b) = infOf (0 \<le> b)"
| "fdiv NegInf (Finite b) = infOf (b < 0)"
| "fdiv x y = NotANumber"

text \<open>\<open>Math.max\<close> of two numbers.\<close>

fun fmax :: "float64 \<Rightarrow> float64 \<Rightarrow> float64" where
  "fmax (Finite a) (Finite b) = Finite (max a b)"
| "fmax NotANumber y = NotANumber"
| "fmax x NotANumber = NotANumber"
| "fmax PosInf y = PosInf"
| "fmax x PosInf = PosInf"
| "fmax NegInf y = y"
| "fmax x NegInf = x"

fun finite64 :: "float64 \<Rightarrow> bool" where
  "finite64 (Finite a) = True"
| "finite64 x = False"

subsection \<open>The typing speed of \<open>extractFeatures\<close>\<close>

text \<open>
  The statements of \<open>extractFeatures\<close> up to \<open>typingSpeed\<close>, with every subtraction,
  addition and division a double operation.  The timestamps are finite doubles.  The
  literal \<open>0.001\<close> is the double nearest to it.
\<close>

fun holdLoop64 :: "KeystrokeEvent list \<Rightarrow> (string \<times> real) list \<Rightarrow> float64 list" where
  "holdLoop64 keyups [] = []"
| "holdLoop64 keyups ((k, downTs) # rest) =
     (case findUp keyups k downTs of
        Some upEvent \<Rightarrow> fsub (Finite (timestamp upEvent)) (Finite downTs) # holdLoop64 keyups rest
      | None \<Rightarrow> holdLoop64 keyups rest)"

fun ddLoop64 :: "(string \<times> real) list \<Rightarrow> float64 list" where
  "ddLoop64 (p1 # p2 # rest) = fsub (Finite (snd p2)) (Finite (snd p1)) # ddLoop64 (p2 # rest)"
| "ddLoop64 [p1] = []"
| "ddLoop64 [] = []"

fun udLoop64 :: "KeystrokeEvent list \<Rightarrow> (string \<times> real) list \<Rightarrow> float64 list" where
  "udLoop64 keyups (cur # nxt # rest) =
     (case findUp keyups (fst cur) (snd cur) of
        Some currentUp \<Rightarrow> fsub (Finite (snd nxt)) (Finite (timestamp currentUp))
      | None \<Rightarrow> fsub (Finite (snd nxt)) (Finite (snd cur))) # udLoop64 keyups (nxt # rest)"
| "udLoop64 keyups [cur] = []"
| "udLoop64 keyups [] = []"

definition reduceSum64 :: "float64 list \<Rightarrow> float64" where
  "reduceSum64 xs = foldl (\<lambda>sum t. fadd sum t) (Finite 0) xs"

definition totalTime64 :: "float64 list \<Rightarrow> float64 list \<Rightarrow> float64 list \<Rightarrow> float64" where
  "totalTime64 hs ds us =
     (let m = fmax (fmax (reduceSum64 hs) (reduceSum64 ds)) (reduceSum64 us)
      in if m = Finite 0 \<or> m = NotANumber then round64 0.001 else m)"

definition typingSpeed64 :: "KeystrokeEvent list \<Rightarrow> float64" where
  "typingSpeed64 data =
     (let keydowns = filter (\<lambda>k. type k = keydown) data;
          keyups = filter (\<lambda>k. type k = keyup) data;
          matchedKeys = map (\<lambda>k. (key k, timestamp k)) keydowns;
          hs = holdLoop64 keyups matchedKeys;
          ds = ddLoop64 matchedKeys;
          us = udLoop64 keyups matchedKeys;
          total = totalTime64 hs ds us
      in fdiv (Finite (real (length matchedKeys))) (fdiv total (Finite 1000)))"

subsection \<open>The aggregator \<open>aggregateFeatures\<close>\<close>

text \<open>
  \<open>aggregateFeatures\<close> with every operation a double operation.  The descriptors of
  a frame are finite doubles.  The profile has the mean and variance fields; the optional
  fields, which \<open>aggregateFeatures\<close> leaves absent, are left out.
\<close>

record AggregatedVoiceFeatures64 =
  mfccMean64 :: "float64 list"
  mfccVariance64 :: "float64 list"
  spectralCentroidMean64 :: float64
  spectralCentroidVariance64 :: float64
  spectralFlatnessMean64 :: float64
  spectralFlatnessVariance64 :: float64
  spectralRolloffMean64 :: float64
  spectralRolloffVariance64 :: float64
  spectralFluxMean64 :: float64
  spectralFluxVariance64 :: float64
  perceptualSpreadMean64 :: float64
  perceptualSpreadVariance64 :: float64
  perceptualSharpnessMean64 :: float64
  perceptualSharpnessVariance64 :: float64
  spectralKurtosisMean64 :: float64
  spectralKurtosisVariance64 :: float64
  zcrMean64 :: float64
  zcrVariance64 :: float64
  rmsMean64 :: float64
  rmsVariance64 :: float64
  energyMean64 :: float64
  energyVariance64 :: float64

fun addInto64 :: "float64 list \<Rightarrow> float64 list \<Rightarrow> float64 list" where
  "addInto64 accs [] = accs"
| "addInto64 [] (v # vs) = NotANumber # addInto64 [] vs"
| "addInto64 (s # accs) (v # vs) = fadd s v # addInto64 accs vs"

definition mfccSums64 :: "VoiceFeatures list \<Rightarrow> float64 list" where
  "mfccSums64 frames =
     foldl (\<lambda>accs feature. addInto64 accs (map Finite (mfcc feature)))
       (replicate (length (mfcc (hd frames))) (Finite 0)) frames"

definition mfccSquareSums64 :: "VoiceFeatures list \<Rightarrow> float64 list" where
  "mfccSquareSums64 frames =
     foldl (\<lambda>accs feature. addInto64 accs (map (\<lambda>v. fmul (Finite v) (Finite v)) (mfcc feature)))
       (replicate (length (mfcc (hd frames))) (Finite 0)) frames"

definition sumOf64 :: "(VoiceFeatures \<Rightarrow> real) \<Rightarrow> VoiceFeatures list \<Rightarrow> float64" where
  "sumOf64 field frames = foldl (\<lambda>acc feature. fadd acc (Finite (field feature))) (Finite 0) frames"

definition sumSqOf64 :: "(VoiceFeatures \<Rightarrow> real) \<Rightarrow> VoiceFeatures list \<Rightarrow> float64" where
  "sumSqOf64 field frames =
     foldl (\<lambda>acc feature. fadd acc (fmul (Finite (field feature)) (Finite (field feature))))
       (Finite 0) frames"

definition meanOf64 :: "(VoiceFeatures \<Rightarrow> real) \<Rightarrow> VoiceFeatures list \<Rightarrow> float64" where
  "meanOf64 field frames = fdiv (sumOf64 field frames) (Finite (real (length frames)))"

definition varianceOf64 :: "(VoiceFeatures \<Rightarrow> real) \<Rightarrow> VoiceFeatures list \<Rightarrow> float64" where
  "varianceOf64 field frames =
     fsub (fdiv (sumSqOf64 field frames) (Finite (real (length frames))))
          (fmul (meanOf64 field frames) (meanOf64 field frames))"

definition aggregateFeatures64 :: "VoiceFeatures list \<Rightarrow> error + AggregatedVoiceFeatures64" where
  "aggregateFeatures64 frames =
     (if length frames = 0 then Inl (Error ''No features to aggregate'')
      else
        let count = Finite (real (length frames));
            mfccSums = mfccSums64 frames;
            mfccSquareSums = mfccSquareSums64 frames
        in Inr \<lparr>
             mfccMean64 = map (\<lambda>s. fdiv s count) mfccSums,
             mfccVariance64 =
               map (\<lambda>i. fsub (fdiv (mfccSquareSums ! i) count)
                              (fmul (fdiv (mfccSums ! i) count) (fdiv (mfccSums ! i) count)))
                 [0 ..< length mfccSums],
             spectralCentroidMean64 = meanOf64 spectralCentroid frames,
             spectralCentroidVariance64 = varianceOf64 spectralCentroid frames,
             spectralFlatnessMean64 = meanOf64 spectralFlatness frames,
             spectralFlatnessVariance64 = varianceOf64 spectralFlatness frames,
             spectralRolloffMean64 = meanOf64 spectralRolloff frames,
             spectralRolloffVariance64 = varianceOf64 spectralRolloff frames,
             spectralFluxMean64 = meanOf64 spectralFlux frames,
             spectralFluxVariance64 = varianceOf64 spectralFlux frames,
             perceptualSpreadMean64 = meanOf64 perceptualSpread frames,
             perceptualSpreadVariance64 = varianceOf64 perceptualSpread frames,
             perceptualSharpnessMean64 = meanOf64 perceptualSharpness frames,
             perceptualSharpnessVariance64 = varianceOf64 perceptualSharpness frames,
             spectralKurtosisMean64 = meanOf64 spectralKurtosis frames,
             spectralKurtosisVariance64 = varianceOf64 spectralKurtosis frames,
             zcrMean64 = meanOf64 zcr frames,
             zcrVariance64 = varianceOf64 zcr frames,
             rmsMean64 = meanOf64 rms frames,
             rmsVariance64 = varianceOf64 rms frames,
             energyMean64 = meanOf64 energy frames,
             energyVariance64 = varianceOf64 energy frames \<rparr>)"

section \<open>Example inputs\<close>

text \<open>Two keys typed one after the other: press \<open>a\<close> at 0, release at 100, press
  \<open>b\<close> at 150, release at 230.\<close>

definition scenario :: "KeystrokeEvent list" where
  "scenario =
     [\<lparr>key = ''a'', type = keydown, timestamp = 0\<rparr>,
      \<lparr>key = ''a'', type = keyup, timestamp = 100\<rparr>,
      \<lparr>key = ''b'', type = keydown, timestamp = 150\<rparr>,
      \<lparr>key = ''b'', type = keyup, timestamp = 230\<rparr>]"

text \<open>Eleven keys, each pressed at \<open>100 i\<close> and released \<open>50\<close> ms later.\<close>

definition elevenKeys :: "KeystrokeEvent list" where
  "elevenKeys =
     concat (map (\<lambda>i. [\<lparr>key = ''a'', type = keydown, timestamp = 100 * real i\<rparr>,
                        \<lparr>key = ''a'', type = keyup, timestamp = 100 * real i + 50\<rparr>])
               [0, 1, 2, 3, 4, 5, 6, 7, 8, 9, 10])"

text \<open>Membership of the closed interval from 0 to 1; \<open>NaN\<close> is not a member.\<close>

fun inUnit :: "number \<Rightarrow> bool" where
  "inUnit (Num a) = (0 \<le> a \<and> a \<le> 1)"
| "inUnit NaN = False"

text \<open>A profile whose MFCC vectors are empty, as \<open>aggregateFeatures\<close> returns for
  frames with an empty \<open>mfcc\<close>.\<close>

definition emptyMfccProfile :: AggregatedVoiceFeatures where
  "emptyMfccProfile =
     \<lparr> mfccMean = [], mfccVariance = [],
       spectralCentroidMean = 0, spectralCentroidVariance = 0,
       spectralFlatnessMean = 0, spectralFlatnessVariance = 0,
       spectralRolloffMean = 0, spectralRolloffVariance = 0,
       spectralFluxMean = 0, spectralFluxVariance = 0,
       perceptualSpreadMean = 0, perceptualSpreadVariance = 0,
       perceptualSharpnessMean = 0, perceptualSharpnessVariance = 0,
       spectralKurtosisMean = 0, spectralKurtosisVariance = 0,
       zcrMean = 0, zcrVariance = 0, rmsMean = 0, rmsVariance = 0,
       energyMean = 0, energyVariance = 0,
       pitchMean = None, pitchVariance = None, pitchRange = None,
       jitterA = None, shimmerA = None, speakingRate = None \<rparr>"

text \<open>One frame, and the profile that \<open>aggregateFeatures\<close> returns for it.\<close>

definition oneFrame :: VoiceFeatures where
  "oneFrame =
     \<lparr> mfcc = [1, 2], spectralCentroid = 1000, spectralFlatness = 0.25, spectralRolloff = 0,
       spectralFlux = 0, perceptualSpread = 0, perceptualSharpness = 0, spectralKurtosis = 0,
       zcr = 0.5, rms = 0.5, energy = 0.25, pitch = None, jitter = None, shimmer = None \<rparr>"



text \<open>
  Blobs and a decoder for them: the decoder accepts a blob that starts with the bytes of
  \<open>RIFF\<close> and returns one second of audio at constant amplitude 0.5; it rejects
  every other blob.
\<close>

definition goodBuffer :: AudioBuffer where
  "goodBuffer = \<lparr> duration = 1, sampleRate = 44100, channelData = replicate 44100 0.5 \<rparr>"

definition exampleDecode :: "Blob \<Rightarrow> AudioBuffer option" where
  "exampleDecode blob = (if take 4 (bytes blob) = [82, 73, 70, 70] then Some goodBuffer else None)"

definition tinyBlob :: Blob where
  "tinyBlob = \<lparr> size = 500, bytes = [82, 73, 70, 70] @ replicate 496 0 \<rparr>"

definition hugeBlob :: Blob where
  "hugeBlob =
     \<lparr> size = 60 * 1024 * 1024,
       bytes = [82, 73, 70, 70] @ replicate (60 * 1024 * 1024 - 4) 0 \<rparr>"

definition goodBlob :: Blob where
  "goodBlob = \<lparr> size = 88244, bytes = [82, 73, 70, 70] @ replicate 88240 0 \<rparr>"

definition brokenBlob :: Blob where
  "brokenBlob = \<lparr> size = 88244, bytes = [0, 0, 0, 0] @ replicate 88240 0 \<rparr>"

text \<open>
  Three equal frames whose energy is the double that the literal \<open>0.1\<close> denotes,
  \<open>3602879701896397 / 2^55\<close>; every other descriptor is 0.
\<close>

definition tenthFrame :: VoiceFeatures where
  "tenthFrame =
     \<lparr> mfcc = replicate 13 0, spectralCentroid = 0, spectralFlatness = 0, spectralRolloff = 0,
       spectralFlux = 0, perceptualSpread = 0, perceptualSharpness = 0, spectralKurtosis = 0,
       zcr = 0, rms = 0, energy = 3602879701896397 / 36028797018963968,
       pitch = None, jitter = None, shimmer = None \<rparr>"

definition tenthFrames :: "VoiceFeatures list" where
  "tenthFrames = [tenthFrame, tenthFrame, tenthFrame]"

text \<open>A number that is not negative; \<open>NaN\<close> is not.\<close>

fun nonneg :: "number \<Rightarrow> bool" where
  "nonneg (Num a) = (0 \<le> a)"
| "nonneg NaN = False"

text \<open>Two frames that differ in their first MFCC coefficient and in their energy.\<close>

definition twoFrames :: "VoiceFeatures list" where
  "twoFrames = [oneFrame, oneFrame\<lparr>mfcc := [3, 2], energy := 0.75\<rparr>]"

text \<open>The smallest positive double, \<open>2^-1074\<close> (about \<open>4.9e-324\<close>, written
  \<open>5e-324\<close>), and a key held for that long.\<close>

definition minSubnormal :: real where
  "minSubnormal = 1 / 2 ^ 1074"

definition tinyHold :: "KeystrokeEvent list" where
  "tinyHold =
     [\<lparr>key = ''a'', type = keydown, timestamp = 0\<rparr>,
      \<lparr>key = ''a'', type = keyup, timestamp = minSubnormal\<rparr>]"

text \<open>A double whose square is beyond the largest double, and one frame with that MFCC
  coefficient.\<close>

definition hugeValue :: real where
  "hugeValue = 2 ^ 600"

definition hugeFrame :: VoiceFeatures where
  "hugeFrame =
     \<lparr> mfcc = [hugeValue], spectralCentroid = 0, spectralFlatness = 0, spectralRolloff = 0,
       spectralFlux = 0, perceptualSpread = 0, perceptualSharpness = 0, spectralKurtosis = 0,
       zcr = 0, rms = 0, energy = 0, pitch = None, jitter = None, shimmer = None \<rparr>"

text \<open>A descriptor value that is a double and whose square does not overflow.\<close>

definition squarable :: "real \<Rightarrow> bool" where
  "squarable v = (round64 v = Finite v \<and> finite64 (round64 (v * v)))"

text \<open>The MFCC coefficients and the ten scalar descriptors of a frame.\<close>

definition descriptors :: "VoiceFeatures \<Rightarrow> real list" where
  "descriptors f =
     mfcc f @ [spectralCentroid f, spectralFlatness f, spectralRolloff f, spectralFlux f,
               perceptualSpread f, perceptualSharpness f, spectralKurtosis f, zcr f, rms f,
               energy f]"

section \<open>Properties of the keystroke extractor\<close>

subsection \<open>The loops\<close>

lemma padLoop_eq: "padLoop n v = v @ replicate (n - length v) 0"
proof (induction n v rule: padLoop.induct)
  case (1 target featureVector)
  show ?case
  proof (cases "length featureVector < target")
    case True
    then have "target - length featureVector = Suc (target - Suc (length featureVector))"
      by simp
    with True 1 show ?thesis
      by (subst padLoop.simps) (simp add: replicate_append_same)
  next
    case False
    then show ?thesis by (subst padLoop.simps) simp
  qed
qed

lemma padLoop_length: "length (padLoop n v) = max n (length v)"
  by (simp add: padLoop_eq)

lemma ddLoop_length: "length (ddLoop ms) = length ms - 1"
  by (induction ms rule: ddLoop.induct) auto

lemma udLoop_length: "length (udLoop ups ms) = length ms - 1"
  by (induction ups ms rule: udLoop.induct) auto

lemma holdLoop_length: "length (holdLoop ups ms) \<le> length ms"
  by (induction ups ms rule: holdLoop.induct) (auto split: option.splits)

lemma foldl_plus_acc: "foldl (\<lambda>sum t. sum + t) (a::real) xs = a + sum_list xs"
  by (induction xs arbitrary: a) auto

lemma reduceSum_sum_list: "reduceSum xs = sum_list xs"
  by (simp add: reduceSum_def foldl_plus_acc)

lemma findUp_later: "findUp ups k d = Some u \<Longrightarrow> timestamp u > d"
  by (auto simp: findUp_def find_Some_iff)

lemma holdLoop_pos: "x \<in> set (holdLoop ups ms) \<Longrightarrow> 0 < x"
  by (induction ups ms rule: holdLoop.induct) (auto split: option.splits dest: findUp_later)

lemma holdLoop_sum_nonneg: "0 \<le> reduceSum (holdLoop ups ms)"
  unfolding reduceSum_sum_list
  by (rule sum_list_nonneg) (auto dest: holdLoop_pos intro: less_imp_le)

lemma totalTime_pos: "0 \<le> reduceSum hs \<Longrightarrow> 0 < totalTime hs ds us"
  by (auto simp: totalTime_def Let_def max_def)

subsection \<open>Length of the encoded vector\<close>

lemma vector_length:
  "length (padLoop 34 (take 11 hs @ take 10 ds @ take 10 us @ [a, b, c, d])) =
     max 34 (min 11 (length hs) + min 10 (length ds) + min 10 (length us) + 4)"
  unfolding padLoop_length by (simp only: length_append length_take list.size) arith

lemma extractFeatures_length:
  "length (features (extractFeatures data)) =
     max 34 (min 11 (length (holdTimes (extractFeatures data)))
             + min 10 (length (ddTimes (extractFeatures data)))
             + min 10 (length (udTimes (extractFeatures data))) + 4)"
  by (simp add: extractFeatures_def Let_def PASSWORD_LENGTH_def vector_length)

text \<open>
  The encoded vector has 34 entries unless all of the first eleven presses have a
  release and there are at least eleven presses; then the four scalars follow
  \<open>11 + 10 + 10\<close> timings and the vector has 35 entries, one more than the padding
  target \<open>3 * 11 + 1\<close>.
\<close>

lemma extractFeatures_length_cases:
  "length (features (extractFeatures data)) =
     (if 11 \<le> length (holdTimes (extractFeatures data)) then 35 else 34)"
proof -
  let ?E = "extractFeatures data"
  let ?ms = "map (\<lambda>k. (key k, timestamp k)) (filter (\<lambda>k. type k = keydown) data)"
  have "holdTimes ?E = holdLoop (filter (\<lambda>k. type k = keyup) data) ?ms"
    by (simp add: extractFeatures_def Let_def)
  then have h: "length (holdTimes ?E) \<le> length ?ms"
    by (simp only: holdLoop_length)
  have d: "length (ddTimes ?E) = length ?ms - 1"
    by (simp add: extractFeatures_def Let_def ddLoop_length)
  have u: "length (udTimes ?E) = length ?ms - 1"
    by (simp add: extractFeatures_def Let_def udLoop_length)
  show ?thesis
    unfolding extractFeatures_length [of data] d u using h by auto
qed

lemma extractFeatures_empty: "features (extractFeatures []) = replicate 34 0"
proof -
  have "features (extractFeatures []) = replicate 4 0 @ replicate 30 0"
    by (simp add: extractFeatures_def Let_def padLoop_eq PASSWORD_LENGTH_def totalTime_def
          reduceSum_def numeral_eq_Suc)
  also have "\<dots> = replicate 34 0"
    by (simp add: replicate_add [symmetric])
  finally show ?thesis .
qed

lemma elevenKeys_lengths:
  "length (holdTimes (extractFeatures elevenKeys)) = 11"
  "length (ddTimes (extractFeatures elevenKeys)) = 10"
  "length (udTimes (extractFeatures elevenKeys)) = 10"
  by (simp_all add: extractFeatures_def elevenKeys_def Let_def findUp_def)

text \<open>
  C1: the encoded vector should have one length for every input.  For the empty event
  list it is the all-zero vector of length 34, but for eleven keys that are each pressed
  and released it has 35 entries: the length is not independent of the input.
\<close>

theorem encoded_length_varies:
  "features (extractFeatures []) = replicate 34 0
   \<and> length (features (extractFeatures [])) = 34
   \<and> length (features (extractFeatures elevenKeys)) = 35"
  by (simp add: extractFeatures_empty extractFeatures_length [of elevenKeys] elevenKeys_lengths)

subsection \<open>The two-key scenario\<close>

text \<open>
  C4 (as amended): for the scenario the hold times are \<open>[100, 80]\<close>, the down-down
  times \<open>[150]\<close>, the flight times \<open>[50]\<close>, and the typing speed is two presses over
  the largest of the three sums, \<open>2 / (180 / 1000) = 100 / 9\<close>, about 11.11 keys per
  second.
\<close>

theorem scenario_features:
  "holdTimes (extractFeatures scenario) = [100, 80]
   \<and> ddTimes (extractFeatures scenario) = [150]
   \<and> udTimes (extractFeatures scenario) = [50]
   \<and> typingSpeed (extractFeatures scenario) = 100 / 9"
  by (simp add: extractFeatures_def scenario_def Let_def findUp_def totalTime_def reduceSum_def)

text \<open>C4 as stated gives a typing speed of about 13.33; the computed speed is more than
  one key per second away from that.\<close>

theorem scenario_typingSpeed_not_13_33:
  "\<not> \<bar>typingSpeed (extractFeatures scenario) - 13.33\<bar> < 1"
  by (simp add: extractFeatures_def scenario_def Let_def findUp_def totalTime_def reduceSum_def)

subsection \<open>Typing speed\<close>

text \<open>
  In exact arithmetic the typing speed of a sequence with at least one press is the
  quotient of the press count and \<open>totalTime / 1000\<close>; every hold time is positive, so
  the maximum of the three sums is never negative and \<open>totalTime\<close> is positive: the
  divisor is not zero and the quotient is not negative.
\<close>

lemma typingSpeed_exact_nonneg:
  assumes "\<exists>k \<in> set data. type k = keydown"
  shows "0 < totalTime (holdTimes (extractFeatures data)) (ddTimes (extractFeatures data))
               (udTimes (extractFeatures data))
         \<and> typingSpeed (extractFeatures data) =
             real (length (filter (\<lambda>k. type k = keydown) data))
             / (totalTime (holdTimes (extractFeatures data)) (ddTimes (extractFeatures data))
                  (udTimes (extractFeatures data)) / 1000)
         \<and> 0 \<le> typingSpeed (extractFeatures data)"
proof -
  let ?E = "extractFeatures data"
  have h: "0 \<le> reduceSum (holdTimes ?E)"
    by (simp add: extractFeatures_def Let_def holdLoop_sum_nonneg)
  have t: "0 < totalTime (holdTimes ?E) (ddTimes ?E) (udTimes ?E)"
    by (rule totalTime_pos [OF h])
  have s: "typingSpeed ?E = real (length (filter (\<lambda>k. type k = keydown) data))
       / (totalTime (holdTimes ?E) (ddTimes ?E) (udTimes ?E) / 1000)"
    by (simp add: extractFeatures_def Let_def)
  from t s show ?thesis by simp
qed

lemma minSubnormal_pos: "0 < minSubnormal"
  by (simp add: minSubnormal_def)

lemma minSubnormal_double: "round64 minSubnormal = Finite minSubnormal"
  by (simp add: round64_def roundEven_def minSubnormal_def)

lemma minSubnormal_quotient: "round64 (minSubnormal / 1000) = Finite 0"
  by (simp add: round64_def roundEven_def minSubnormal_def)

text \<open>
  C9: for every event sequence with at least one press the typing speed should be
  finite and not negative.  In double arithmetic it is not always finite: \<open>|| 0.001\<close>
  replaces only a maximum that is 0 or \<open>NaN\<close>.  For one key held for \<open>2^-1074\<close> ms
  the maximum is that hold time, the quotient \<open>totalTime / 1000\<close> rounds to 0, and
  the typing speed, one press divided by 0, is \<open>Infinity\<close>.
\<close>

theorem typingSpeed64_infinite: "typingSpeed64 tinyHold = PosInf"
proof -
  have nz: "minSubnormal \<noteq> 0" "max minSubnormal 0 = minSubnormal"
    using minSubnormal_pos by simp_all
  show ?thesis
    by (simp add: typingSpeed64_def tinyHold_def Let_def findUp_def fsub_def totalTime64_def
          reduceSum64_def minSubnormal_pos minSubnormal_double minSubnormal_quotient nz infOf_def)
qed

section \<open>Properties of the similarity scorer\<close>

subsection \<open>Symmetry\<close>

lemma nsquare_commute:
  "ntimes (nminus a b) (nminus a b) = ntimes (nminus b a) (nminus b a)"
  by (cases a; cases b) (simp_all add: algebra_simps)

lemma mfccLength_of_commute: "mfccLength_of A B = mfccLength_of B A"
  by (simp add: mfccLength_of_def min.commute)

lemma mfccSquares_commute: "mfccSquares A B = mfccSquares B A"
  unfolding mfccSquares_def Let_def mfccLength_of_commute [of A B]
  by (subst nsquare_commute) (rule refl)

lemma mfccDistance_of_commute: "mfccDistance_of A B = mfccDistance_of B A"
  by (simp add: mfccDistance_of_def mfccSquares_commute [of A B] mfccLength_of_commute [of A B])

lemma pitchDiff_of_commute: "pitchDiff_of A B = pitchDiff_of B A"
  by (auto simp: pitchDiff_of_def abs_minus_commute split: option.splits)

lemma diffs_commute:
  "spectralCentroidDiff_of A B = spectralCentroidDiff_of B A"
  "spectralFlatnessDiff_of A B = spectralFlatnessDiff_of B A"
  "spectralRolloffDiff_of A B = spectralRolloffDiff_of B A"
  "zcrDiff_of A B = zcrDiff_of B A"
  "energyDiff_of A B = energyDiff_of B A"
  "perceptualSpreadDiff_of A B = perceptualSpreadDiff_of B A"
  "perceptualSharpnessDiff_of A B = perceptualSharpnessDiff_of B A"
  by (simp_all add: spectralCentroidDiff_of_def spectralFlatnessDiff_of_def
        spectralRolloffDiff_of_def zcrDiff_of_def energyDiff_of_def
        perceptualSpreadDiff_of_def perceptualSharpnessDiff_of_def abs_minus_commute)

lemma similarities_commute:
  "mfccSimilarity_of A B = mfccSimilarity_of B A"
  "spectralSimilarity_of A B = spectralSimilarity_of B A"
  "voiceQualitySimilarity_of A B = voiceQualitySimilarity_of B A"
  "tempoSimilarity_of A B = tempoSimilarity_of B A"
  "pitchSimilarity_of A B = pitchSimilarity_of B A"
  by (simp_all add: mfccSimilarity_of_def spectralSimilarity_of_def voiceQualitySimilarity_of_def
        tempoSimilarity_of_def pitchSimilarity_of_def mfccDistance_of_commute [of A B]
        pitchDiff_of_commute [of A B] diffs_commute [of A B])

text \<open>
  C8: the distance-based sub-scores do not depend on the order of the two profiles: the
  MFCC distance, the spectral and the voice-quality similarity, the temporal similarity,
  and the pitch difference and similarity (whether or not both profiles carry a pitch
  mean: the presence test reads both profiles alike).
\<close>

theorem subscores_symmetric:
  "mfccDistance (detailedMetrics (calculateRobustSimilarityScore A B))
     = mfccDistance (detailedMetrics (calculateRobustSimilarityScore B A))
   \<and> spectralSimilarity (calculateRobustSimilarityScore A B)
     = spectralSimilarity (calculateRobustSimilarityScore B A)
   \<and> voiceQualitySimilarity (calculateRobustSimilarityScore A B)
     = voiceQualitySimilarity (calculateRobustSimilarityScore B A)
   \<and> tempoSimilarity_of A B = tempoSimilarity_of B A
   \<and> pitchDiff (detailedMetrics (calculateRobustSimilarityScore A B))
     = pitchDiff (detailedMetrics (calculateRobustSimilarityScore B A))
   \<and> pitchSimilarity_of A B = pitchSimilarity_of B A"
  by (simp add: calculateRobustSimilarityScore_def Let_def mfccDistance_of_commute [of A B]
        pitchDiff_of_commute [of A B] similarities_commute [of A B])

lemma calculateRobustSimilarityScore_commute:
  "calculateRobustSimilarityScore A B = calculateRobustSimilarityScore B A"
  by (simp add: calculateRobustSimilarityScore_def Let_def mfccDistance_of_commute [of A B]
        pitchDiff_of_commute [of A B] similarities_commute [of A B] diffs_commute [of A B])

subsection \<open>Bounds\<close>

lemma diffs_nonneg:
  "0 \<le> spectralCentroidDiff_of A B" "0 \<le> spectralFlatnessDiff_of A B"
  "0 \<le> spectralRolloffDiff_of A B" "0 \<le> zcrDiff_of A B" "0 \<le> energyDiff_of A B"
  "0 \<le> perceptualSpreadDiff_of A B" "0 \<le> perceptualSharpnessDiff_of A B"
  by (simp_all add: spectralCentroidDiff_of_def spectralFlatnessDiff_of_def
        spectralRolloffDiff_of_def zcrDiff_of_def energyDiff_of_def
        perceptualSpreadDiff_of_def perceptualSharpnessDiff_of_def)

lemma category_bounds:
  "0 \<le> spectralSimilarity_of A B" "spectralSimilarity_of A B \<le> 1"
  "0 \<le> voiceQualitySimilarity_of A B" "voiceQualitySimilarity_of A B \<le> 1"
  "0 \<le> tempoSimilarity_of A B" "tempoSimilarity_of A B \<le> 1"
  using diffs_nonneg [of A B]
  by (simp_all add: spectralSimilarity_of_def voiceQualitySimilarity_of_def tempoSimilarity_of_def)

lemma pitchDiff_nonneg: "pitchDiff_of A B = Some d \<Longrightarrow> 0 \<le> d"
  by (auto simp: pitchDiff_of_def split: option.splits if_splits)

lemma pitch_bounds: "0 \<le> pitchSimilarity_of A B" "pitchSimilarity_of A B \<le> 1"
  by (auto simp: pitchSimilarity_of_def split: option.splits dest: pitchDiff_nonneg)

lemma foldl_squares_lower:
  "foldl (\<lambda>acc i. let diff = nminus (xs ! i) (ys ! i) in nplus acc (ntimes diff diff)) acc0 is = Num q
   \<Longrightarrow> \<exists>a. acc0 = Num a \<and> a \<le> q"
proof (induction "is" arbitrary: acc0)
  case Nil
  then show ?case by simp
next
  case (Cons i "is")
  let ?d = "nminus (xs ! i) (ys ! i)"
  from Cons.prems have "foldl (\<lambda>acc i. let diff = nminus (xs ! i) (ys ! i) in nplus acc (ntimes diff diff))
         (nplus acc0 (ntimes ?d ?d)) is = Num q"
    by (simp add: Let_def)
  from Cons.IH [OF this] obtain a where a: "nplus acc0 (ntimes ?d ?d) = Num a" "a \<le> q"
    by blast
  show ?case
  proof (cases acc0; cases ?d)
    fix x d assume eq: "acc0 = Num x" "?d = Num d"
    with a have "x + d * d \<le> q" by simp
    moreover have "0 \<le> d * d" by simp
    ultimately have "x \<le> q" by linarith
    with eq show ?thesis by simp
  qed (use a in auto)
qed

lemma mfccSquares_nonneg: "mfccSquares A B = Num q \<Longrightarrow> 0 \<le> q"
  unfolding mfccSquares_def by (drule foldl_squares_lower) simp

lemma mfccDistance_nonneg: "mfccDistance_of A B = Num d \<Longrightarrow> 0 \<le> d"
  by (cases "mfccSquares A B")
     (auto simp: mfccDistance_of_def split: if_splits dest!: mfccSquares_nonneg)

lemma mfccSimilarity_cases:
  "mfccSimilarity_of A B = NaN \<or> (\<exists>m. mfccSimilarity_of A B = Num m \<and> 0 \<le> m \<and> m \<le> 1)"
  by (cases "mfccDistance_of A B") (auto simp: mfccSimilarity_of_def dest: mfccDistance_nonneg)

lemma confidence_of_five:
  "inUnit (confidence_of [Num a, Num b, Num c, Num d, Num e])"
  by (simp add: confidence_of_def Let_def)

text \<open>
  Whenever the MFCC similarity is a number, every similarity and confidence field of the
  result lies between 0 and 1.
\<close>

lemma overall_bounds:
  assumes "mfccSimilarity_of A B \<noteq> NaN"
  shows "inUnit (overallSimilarity (calculateRobustSimilarityScore A B))"
    and "inUnit (pitchNormalizedSimilarity (calculateRobustSimilarityScore A B))"
    and "inUnit (tempoNormalizedSimilarity (calculateRobustSimilarityScore A B))"
    and "inUnit (spectralSimilarity (calculateRobustSimilarityScore A B))"
    and "inUnit (voiceQualitySimilarity (calculateRobustSimilarityScore A B))"
    and "inUnit (confidenceScore (calculateRobustSimilarityScore A B))"
proof -
  from assms mfccSimilarity_cases [of A B]
  obtain m where m: "mfccSimilarity_of A B = Num m" "0 \<le> m" "m \<le> 1" by blast
  note b = category_bounds [of A B] pitch_bounds [of A B]
  show "inUnit (overallSimilarity (calculateRobustSimilarityScore A B))"
    using m b by (simp add: calculateRobustSimilarityScore_def Let_def)
  show "inUnit (pitchNormalizedSimilarity (calculateRobustSimilarityScore A B))"
    using m b by (simp add: calculateRobustSimilarityScore_def Let_def)
  show "inUnit (tempoNormalizedSimilarity (calculateRobustSimilarityScore A B))"
    using m b by (simp add: calculateRobustSimilarityScore_def Let_def)
  show "inUnit (spectralSimilarity (calculateRobustSimilarityScore A B))"
    using b by (simp add: calculateRobustSimilarityScore_def Let_def)
  show "inUnit (voiceQualitySimilarity (calculateRobustSimilarityScore A B))"
    using b by (simp add: calculateRobustSimilarityScore_def Let_def)
  show "inUnit (confidenceScore (calculateRobustSimilarityScore A B))"
    using m by (simp add: calculateRobustSimilarityScore_def Let_def confidence_of_five)
qed

text \<open>
  C6: every similarity and confidence field should lie in the closed interval from 0 to
  1 for every pair of profiles.  For two profiles with empty MFCC vectors the MFCC
  distance is \<open>0 / 0\<close>, and the overall similarity, both composite similarities and the
  confidence score are \<open>NaN\<close>, which lies in no interval.
\<close>

theorem empty_mfcc_gives_NaN:
  "overallSimilarity (calculateRobustSimilarityScore emptyMfccProfile emptyMfccProfile) = NaN
   \<and> pitchNormalizedSimilarity (calculateRobustSimilarityScore emptyMfccProfile emptyMfccProfile) = NaN
   \<and> tempoNormalizedSimilarity (calculateRobustSimilarityScore emptyMfccProfile emptyMfccProfile) = NaN
   \<and> confidenceScore (calculateRobustSimilarityScore emptyMfccProfile emptyMfccProfile) = NaN
   \<and> \<not> inUnit (overallSimilarity (calculateRobustSimilarityScore emptyMfccProfile emptyMfccProfile))"
  by (simp add: calculateRobustSimilarityScore_def Let_def mfccSimilarity_of_def mfccDistance_of_def
        mfccLength_of_def emptyMfccProfile_def confidence_of_def)

subsection \<open>Comparing a profile with itself\<close>









section \<open>Properties of the aggregator\<close>

text \<open>The two MFCC accumulators always have the same length, so every index that the
  variance loop reads in \<open>mfccSquareSums\<close> exists.\<close>

lemma addInto_length: "length (addInto rd accs vs) = max (length accs) (length vs)"
  by (induction rd accs vs rule: addInto.induct) auto

lemma foldl_addInto_length:
  "length accs1 = length accs2 \<Longrightarrow>
   length (foldl (\<lambda>accs feature. addInto rd accs (g feature)) accs1 frames)
   = length (foldl (\<lambda>accs feature. addInto rd accs (map h (g feature))) accs2 frames)"
  by (induction frames arbitrary: accs1 accs2) (simp_all add: addInto_length)

lemma mfccSquareSums_length:
  "length (mfccSquareSums_of rd frames) = length (mfccSums_of rd frames)"
  unfolding mfccSquareSums_of_def mfccSums_of_def
  by (rule foldl_addInto_length [symmetric]) simp

subsection \<open>No frame, one frame\<close>

lemma addInto_zero: "addInto exact (replicate (length vs) (Num 0)) vs = map Num vs"
  by (induction vs) (auto simp: exact_def)

lemma single_mfccSums: "mfccSums_of exact [f] = map Num (mfcc f)"
  by (simp add: mfccSums_of_def addInto_zero)

lemma single_mfccSquareSums: "mfccSquareSums_of exact [f] = map (\<lambda>v. Num (v * v)) (mfcc f)"
  using addInto_zero [of "map (\<lambda>v. v * v) (mfcc f)"]
  by (simp add: mfccSquareSums_of_def comp_def exact_def)

lemma single_variance: "varianceOf exact field [f] = 0"
  by (simp add: varianceOf_def meanOf_def sumOf_def sumSqOf_def exact_def)

lemma single_mfccVariance:
  "map (\<lambda>i. nround exact
              (nminus (nround exact (ndiv (mfccSquareSums_of exact [f] ! i) 1))
                 (nround exact (ntimes (nround exact (ndiv (mfccSums_of exact [f] ! i) 1))
                                       (nround exact (ndiv (mfccSums_of exact [f] ! i) 1))))))
     [0 ..< length (mfccSums_of exact [f])]
   = replicate (length (mfcc f)) (Num 0)"
  by (rule nth_equalityI) (simp_all add: single_mfccSums single_mfccSquareSums exact_def)

text \<open>
  In exact arithmetic: no frame gives the error, and one frame gives a profile whose
  variances are all 0.
\<close>

lemma aggregate_exact_empty_and_single:
  "aggregateFeatures [] = Inl (Error ''No features to aggregate'')
   \<and> (\<exists>P. aggregateFeatures [f] = Inr P
        \<and> mfccVariance P = replicate (length (mfcc f)) (Num 0)
        \<and> spectralCentroidVariance P = 0 \<and> spectralFlatnessVariance P = 0
        \<and> spectralRolloffVariance P = 0 \<and> spectralFluxVariance P = 0
        \<and> perceptualSpreadVariance P = 0 \<and> perceptualSharpnessVariance P = 0
        \<and> spectralKurtosisVariance P = 0 \<and> zcrVariance P = 0
        \<and> rmsVariance P = 0 \<and> energyVariance P = 0)"
  by (simp add: aggregateFeatures_def aggregateFeaturesIn_def Let_def single_variance
        single_mfccVariance)

subsection \<open>Variances in exact arithmetic\<close>

text \<open>
  In exact arithmetic the accumulators are the sum and the sum of squares of a
  descriptor over the frames, and the square of a sum of \<open>n\<close> numbers is at most
  \<open>n\<close> times the sum of their squares: the variance formula never gives a negative
  number.
\<close>

lemma exact_apply: "exact x = x"
  by (simp add: exact_def)

lemma sumOf_exact: "sumOf exact field frames = sum_list (map field frames)"
proof -
  have "foldl (\<lambda>acc feature. acc + field feature) a frames = a + sum_list (map field frames)" for a
    by (induction frames arbitrary: a) simp_all
  from this [of 0] show ?thesis by (simp add: sumOf_def exact_apply)
qed

lemma sumSqOf_exact: "sumSqOf exact field frames = sum_list (map (\<lambda>f. field f * field f) frames)"
proof -
  have "foldl (\<lambda>acc feature. acc + field feature * field feature) a frames
        = a + sum_list (map (\<lambda>f. field f * field f) frames)" for a
    by (induction frames arbitrary: a) simp_all
  from this [of 0] show ?thesis by (simp add: sumSqOf_def exact_apply)
qed

lemma cross_term_bound:
  "2 * x * sum_list xs \<le> real (length xs) * (x * x) + sum_list (map (\<lambda>y. y * y) xs)"
  for x :: real
proof (induction xs)
  case Nil
  then show ?case by simp
next
  case (Cons y ys)
  have "0 \<le> (x - y) * (x - y)" by simp
  then have "2 * x * y \<le> x * x + y * y" by (simp add: algebra_simps)
  with Cons show ?case by (simp add: algebra_simps)
qed

lemma square_of_sum_bound:
  "sum_list xs * sum_list xs \<le> real (length xs) * sum_list (map (\<lambda>y. y * y) xs)"
  for xs :: "real list"
proof (induction xs)
  case Nil
  then show ?case by simp
next
  case (Cons x xs)
  from cross_term_bound [of x xs] Cons show ?case
    by (simp add: algebra_simps)
qed

lemma varianceOf_exact_nonneg: "0 \<le> varianceOf exact field frames"
proof (cases "frames = []")
  case True
  then show ?thesis
    by (simp add: varianceOf_def meanOf_def sumOf_def sumSqOf_def exact_apply)
next
  case False
  let ?n = "real (length frames)"
  let ?S = "sum_list (map field frames)"
  let ?Q = "sum_list (map (\<lambda>f. field f * field f) frames)"
  from False have n: "0 < ?n" by simp
  have "?S * ?S \<le> ?n * ?Q"
    using square_of_sum_bound [of "map field frames"] by (simp add: comp_def)
  then have "?S * ?S / (?n * ?n) \<le> ?n * ?Q / (?n * ?n)"
    using n by (intro divide_right_mono) simp_all
  then have "(?S / ?n) * (?S / ?n) \<le> ?Q / ?n"
    using n by simp
  then show ?thesis
    by (simp add: varianceOf_def meanOf_def sumOf_exact sumSqOf_exact) (simp add: exact_apply)
qed

text \<open>
  When every frame has an MFCC vector of the length of the first frame's, slot \<open>i\<close>
  of each MFCC accumulator is the scalar accumulator of the \<open>i\<close>-th coefficient.
\<close>

lemma addInto_nth:
  "i < length accs \<Longrightarrow> i < length vs \<Longrightarrow>
   addInto exact accs vs ! i = nplus (accs ! i) (Num (vs ! i))"
proof (induction exact accs vs arbitrary: i rule: addInto.induct)
  case (3 s accs v vs)
  then show ?case
    by (cases i; cases s) (simp_all add: exact_apply)
qed simp_all

lemma foldl_addInto_column:
  assumes "list_all (\<lambda>f. length (g f) = n) frames" "length accs = n" "i < n" "accs ! i = Num a"
  shows "length (foldl (\<lambda>accs f. addInto exact accs (g f)) accs frames) = n
         \<and> foldl (\<lambda>accs f. addInto exact accs (g f)) accs frames ! i
           = Num (foldl (\<lambda>acc f. acc + g f ! i) a frames)"
  using assms
proof (induction frames arbitrary: accs a)
  case Nil
  then show ?case by simp
next
  case (Cons f frames)
  from Cons.prems have len: "length (g f) = n" and rest: "list_all (\<lambda>f. length (g f) = n) frames"
    by simp_all
  have l: "length (addInto exact accs (g f)) = n"
    using len Cons.prems(2) by (simp add: addInto_length)
  have v: "addInto exact accs (g f) ! i = Num (a + g f ! i)"
    using len Cons.prems by (simp add: addInto_nth)
  from Cons.IH [OF rest l Cons.prems(3) v] show ?case by simp
qed

lemma foldl_column_cong:
  assumes "list_all (\<lambda>f. h f = k f) frames"
  shows "foldl (\<lambda>acc f. acc + h f) a frames = foldl (\<lambda>acc f. acc + k f) (a::real) frames"
  using assms by (induction frames arbitrary: a) simp_all

lemma mfccSums_column:
  assumes "list_all (\<lambda>f. length (mfcc f) = n) frames" "n = length (mfcc (hd frames))" "i < n"
  shows "length (mfccSums_of exact frames) = n"
    and "mfccSums_of exact frames ! i = Num (sumOf exact (\<lambda>f. mfcc f ! i) frames)"
  using foldl_addInto_column [of mfcc n frames "replicate n (Num 0)" i 0] assms
  by (simp_all add: mfccSums_of_def sumOf_def exact_apply)

lemma mfccSquareSums_column:
  assumes "list_all (\<lambda>f. length (mfcc f) = n) frames" "n = length (mfcc (hd frames))" "i < n"
  shows "mfccSquareSums_of exact frames ! i = Num (sumSqOf exact (\<lambda>f. mfcc f ! i) frames)"
proof -
  let ?g = "\<lambda>f. map (\<lambda>v. exact (v * v)) (mfcc f)"
  have g: "list_all (\<lambda>f. length (?g f) = n) frames"
    using assms(1) by (simp add: list_all_iff)
  have c: "list_all (\<lambda>f. ?g f ! i = mfcc f ! i * mfcc f ! i) frames"
    using assms(1,3) by (simp add: list_all_iff exact_apply)
  have "mfccSquareSums_of exact frames ! i = Num (foldl (\<lambda>acc f. acc + ?g f ! i) 0 frames)"
    using foldl_addInto_column [of ?g n frames "replicate n (Num 0)" i 0] g assms(2,3)
    by (simp add: mfccSquareSums_of_def)
  also have "foldl (\<lambda>acc f. acc + ?g f ! i) 0 frames
             = foldl (\<lambda>acc f. acc + mfcc f ! i * mfcc f ! i) 0 frames"
    by (rule foldl_column_cong [OF c])
  finally have col: "mfccSquareSums_of exact frames ! i
                     = Num (foldl (\<lambda>acc f. acc + mfcc f ! i * mfcc f ! i) 0 frames)" .
  have sq: "sumSqOf exact (\<lambda>f. mfcc f ! i) frames
            = foldl (\<lambda>acc f. acc + mfcc f ! i * mfcc f ! i) 0 frames"
    by (simp add: sumSqOf_def exact_apply)
  show ?thesis unfolding sq by (rule col)
qed

lemma mfccVariance_exact:
  assumes "frames \<noteq> []" "list_all (\<lambda>f. length (mfcc f) = length (mfcc (hd frames))) frames"
      and "aggregateFeatures frames = Inr P"
  shows "mfccVariance P
         = map (\<lambda>i. Num (varianceOf exact (\<lambda>f. mfcc f ! i) frames)) [0 ..< length (mfcc (hd frames))]"
proof -
  let ?n = "length (mfcc (hd frames))"
  have len: "length (mfccSums_of exact frames) = ?n"
  proof (cases "?n = 0")
    case True
    with assms(2) have "list_all (\<lambda>f. mfcc f = []) frames" by (simp add: list_all_iff)
    then have "foldl (\<lambda>accs f. addInto exact accs (mfcc f)) [] frames = []"
      by (induction frames) simp_all
    with True show ?thesis by (simp add: mfccSums_of_def)
  next
    case False
    then have "0 < ?n" by simp
    from mfccSums_column(1) [OF assms(2) refl this] show ?thesis .
  qed
  have "mfccVariance P =
          map (\<lambda>i. nround exact
                (nminus (nround exact (ndiv (mfccSquareSums_of exact frames ! i) (real (length frames))))
                   (nround exact (ntimes (nround exact (ndiv (mfccSums_of exact frames ! i) (real (length frames))))
                                         (nround exact (ndiv (mfccSums_of exact frames ! i) (real (length frames))))))))
            [0 ..< ?n]"
    using assms(1,3) len
    by (auto simp: aggregateFeatures_def aggregateFeaturesIn_def Let_def)
  also have "\<dots> = map (\<lambda>i. Num (varianceOf exact (\<lambda>f. mfcc f ! i) frames)) [0 ..< ?n]"
  proof (rule map_cong [OF refl])
    fix i assume "i \<in> set [0 ..< ?n]"
    then have i: "i < ?n" by simp
    show "nround exact
                (nminus (nround exact (ndiv (mfccSquareSums_of exact frames ! i) (real (length frames))))
                   (nround exact (ntimes (nround exact (ndiv (mfccSums_of exact frames ! i) (real (length frames))))
                                         (nround exact (ndiv (mfccSums_of exact frames ! i) (real (length frames)))))))
          = Num (varianceOf exact (\<lambda>f. mfcc f ! i) frames)"
      by (simp add: mfccSums_column(2) [OF assms(2) refl i] mfccSquareSums_column [OF assms(2) refl i]
            varianceOf_def meanOf_def)
  qed
  finally show ?thesis .
qed

text \<open>
  C5 (as amended): in exact arithmetic, for a non-empty frame sequence in which every
  MFCC vector has the length of the first frame's, \<open>aggregateFeatures\<close> returns a
  profile in which every variance field (the ten scalar variances and every entry of the
  MFCC variance) is a number that is not negative.
\<close>

theorem exact_variances_nonneg:
  assumes "frames \<noteq> []"
      and "list_all (\<lambda>f. length (mfcc f) = length (mfcc (hd frames))) frames"
  shows "\<exists>P. aggregateFeatures frames = Inr P
           \<and> list_all nonneg (mfccVariance P)
           \<and> 0 \<le> spectralCentroidVariance P \<and> 0 \<le> spectralFlatnessVariance P
           \<and> 0 \<le> spectralRolloffVariance P \<and> 0 \<le> spectralFluxVariance P
           \<and> 0 \<le> perceptualSpreadVariance P \<and> 0 \<le> perceptualSharpnessVariance P
           \<and> 0 \<le> spectralKurtosisVariance P \<and> 0 \<le> zcrVariance P
           \<and> 0 \<le> rmsVariance P \<and> 0 \<le> energyVariance P"
proof -
  from assms(1) obtain P where P: "aggregateFeatures frames = Inr P"
    by (simp add: aggregateFeatures_def aggregateFeaturesIn_def Let_def)
  have m: "list_all nonneg (mfccVariance P)"
    unfolding mfccVariance_exact [OF assms P]
    by (simp add: list_all_iff varianceOf_exact_nonneg)
  from P assms(1) have
    "spectralCentroidVariance P = varianceOf exact spectralCentroid frames"
    "spectralFlatnessVariance P = varianceOf exact spectralFlatness frames"
    "spectralRolloffVariance P = varianceOf exact spectralRolloff frames"
    "spectralFluxVariance P = varianceOf exact spectralFlux frames"
    "perceptualSpreadVariance P = varianceOf exact perceptualSpread frames"
    "perceptualSharpnessVariance P = varianceOf exact perceptualSharpness frames"
    "spectralKurtosisVariance P = varianceOf exact spectralKurtosis frames"
    "zcrVariance P = varianceOf exact zcr frames"
    "rmsVariance P = varianceOf exact rms frames"
    "energyVariance P = varianceOf exact energy frames"
    by (auto simp: aggregateFeatures_def aggregateFeaturesIn_def Let_def)
  with P m show ?thesis
    by (simp add: varianceOf_exact_nonneg)
qed

theorem exact_variances_nonneg_witness:
  "twoFrames \<noteq> []
   \<and> list_all (\<lambda>f. length (mfcc f) = length (mfcc (hd twoFrames))) twoFrames
   \<and> (\<exists>P. aggregateFeatures twoFrames = Inr P
         \<and> list_all nonneg (mfccVariance P)
         \<and> 0 \<le> spectralCentroidVariance P \<and> 0 \<le> spectralFlatnessVariance P
         \<and> 0 \<le> spectralRolloffVariance P \<and> 0 \<le> spectralFluxVariance P
         \<and> 0 \<le> perceptualSpreadVariance P \<and> 0 \<le> perceptualSharpnessVariance P
         \<and> 0 \<le> spectralKurtosisVariance P \<and> 0 \<le> zcrVariance P
         \<and> 0 \<le> rmsVariance P \<and> 0 \<le> energyVariance P)"
proof -
  have h: "twoFrames \<noteq> []"
    "list_all (\<lambda>f. length (mfcc f) = length (mfcc (hd twoFrames))) twoFrames"
    by (simp_all add: twoFrames_def oneFrame_def)
  from h exact_variances_nonneg [OF h] show ?thesis by blast
qed

subsection \<open>Variances in double arithmetic\<close>

text \<open>
  A number \<open>x\<close> with \<open>2^52 \<le> |x| 2^k < 2^53\<close> has its 53 significant bits
  above \<open>2^-k\<close>; rounding it to a double rounds \<open>x 2^k\<close> to an integer.
\<close>

lemma double_zero: "double 0 = 0"
  by (simp add: double_def)

lemma double_scaled:
  assumes lo: "2 ^ 52 \<le> \<bar>x\<bar> * 2 ^ k" and hi: "\<bar>x\<bar> * 2 ^ k < 2 ^ 53"
  shows "double x = of_int (roundEven (x * 2 ^ k)) / 2 ^ k"
proof -
  from lo have nz: "x \<noteq> 0" by auto
  then have pos: "0 < \<bar>x\<bar>" by simp
  have lg: "log 2 (\<bar>x\<bar> * 2 ^ k) = log 2 \<bar>x\<bar> + real k"
    using pos by (simp add: log_mult log_nat_power)
  have l1: "52 \<le> log 2 (\<bar>x\<bar> * 2 ^ k)"
    using lo pos by (subst le_log_iff) simp_all
  have l2: "log 2 (\<bar>x\<bar> * 2 ^ k) < 53"
    using hi pos by (subst log_less_iff) simp_all
  have fl: "\<lfloor>log 2 \<bar>x\<bar>\<rfloor> = 52 - int k"
    using l1 l2 lg by (intro floor_unique) simp_all
  have pw: "2 powr - real k = 1 / (2::real) ^ k"
    by (simp add: powr_minus powr_realpow divide_inverse)
  show ?thesis
    using nz by (simp add: double_def fl Let_def pw)
qed

lemma double_eval:
  assumes "2 ^ 52 \<le> \<bar>x\<bar> * 2 ^ k" and "\<bar>x\<bar> * 2 ^ k < 2 ^ 53"
    and "roundEven (x * 2 ^ k) = n" and "y = of_int n / 2 ^ k"
  shows "double x = y"
  using double_scaled [OF assms(1,2)] assms(3,4) by simp

text \<open>The roundings that the accumulation of the three frames goes through, in the
  order of the source: the sum, the square and the sum of squares, the mean, the mean of
  the squares, the square of the mean, and their difference.\<close>

lemma double_sum1:
  "double (3602879701896397 / 36028797018963968) = 3602879701896397 / 36028797018963968"
  by (rule double_eval [where k = 56 and n = 7205759403792794]) (simp_all add: roundEven_def)

lemma double_sum2:
  "double (3602879701896397 / 18014398509481984) = 3602879701896397 / 18014398509481984"
  by (rule double_eval [where k = 55 and n = 7205759403792794]) (simp_all add: roundEven_def)

lemma double_sum3:
  "double (10808639105689191 / 36028797018963968) = 1351079888211149 / 4503599627370496"
  by (rule double_eval [where k = 54 and n = 5404319552844596]) (simp_all add: roundEven_def)

lemma double_square:
  "double (12980742146337070512478121581609 / 1298074214633706907132624082305024)
     = 1441151880758559 / 144115188075855872"
  by (rule double_eval [where k = 59 and n = 5764607523034236]) (simp_all add: roundEven_def)

lemma double_sumSq1:
  "double (1441151880758559 / 144115188075855872)
     = 1441151880758559 / 144115188075855872"
  by (rule double_eval [where k = 59 and n = 5764607523034236]) (simp_all add: roundEven_def)

lemma double_sumSq2:
  "double (1441151880758559 / 72057594037927936) = 1441151880758559 / 72057594037927936"
  by (rule double_eval [where k = 58 and n = 5764607523034236]) (simp_all add: roundEven_def)

lemma double_sumSq3:
  "double (4323455642275677 / 144115188075855872)
     = 4323455642275677 / 144115188075855872"
  by (rule double_eval [where k = 58 and n = 8646911284551354]) (simp_all add: roundEven_def)

lemma double_mean:
  "double (1351079888211149 / 13510798882111488) = 7205759403792795 / 72057594037927936"
  by (rule double_eval [where k = 56 and n = 7205759403792795]) (simp_all add: roundEven_def)

lemma double_squaredMean:
  "double (51922968585348296461431293912025 / 5192296858534827628530496329220096)
     = 5764607523034237 / 576460752303423488"
  by (rule double_eval [where k = 59 and n = 5764607523034237]) (simp_all add: roundEven_def)

lemma double_variance:
  "double (- (1 / 576460752303423488)) = - (1 / 576460752303423488)"
  by (rule double_eval [where k = 111 and n = "- 4503599627370496"]) (simp_all add: roundEven_def)

lemmas tenth_roundings =
  double_sum1 double_sum2 double_sum3 double_square double_sumSq1
  double_sumSq2 double_sumSq3 double_mean double_squaredMean double_variance

lemma tenth_sum: "sumOf double energy tenthFrames = 1351079888211149 / 4503599627370496"
  by (simp add: sumOf_def tenthFrames_def tenthFrame_def tenth_roundings)

lemma tenth_sumSq: "sumSqOf double energy tenthFrames = 4323455642275677 / 144115188075855872"
  by (simp add: sumSqOf_def tenthFrames_def tenthFrame_def tenth_roundings)

lemma tenth_variance: "varianceOf double energy tenthFrames = - (1 / 576460752303423488)"
proof -
  have "length tenthFrames = 3"
    by (simp add: tenthFrames_def)
  then show ?thesis
    by (simp add: varianceOf_def meanOf_def tenth_sum tenth_sumSq tenth_roundings)
qed

text \<open>
  C5 as stated has every variance field non-negative, with negative rounding artifacts
  clamped to 0.  The source applies nothing to \<open>sumSq / count - mean * mean\<close>: for the
  three frames of energy 0.1 the energy variance that \<open>aggregateFeatures\<close> computes in
  double arithmetic is \<open>-2^-59\<close>, about \<open>-1.7e-18\<close>, and that negative number is
  the field of the profile.
\<close>

theorem double_variance_negative:
  "(case aggregateFeaturesIn double tenthFrames of
      Inl e \<Rightarrow> False
    | Inr P \<Rightarrow> energyVariance P = - (1 / 2 ^ 59) \<and> energyVariance P < 0)"
  by (simp add: aggregateFeaturesIn_def Let_def tenth_variance) (simp add: tenthFrames_def)

text \<open>Rounding to 53 significant bits is idempotent.\<close>

lemma roundEven_of_int: "roundEven (of_int n) = n"
  by (simp add: roundEven_def)

lemma roundEven_floor: "\<lfloor>m\<rfloor> \<le> roundEven m" "roundEven m \<le> \<lfloor>m\<rfloor> + 1"
  by (simp_all add: roundEven_def Let_def)

lemma roundEven_lower:
  assumes "of_int a \<le> m"
  shows "a \<le> roundEven m"
proof -
  from assms have "a \<le> \<lfloor>m\<rfloor>" by (simp add: le_floor_iff)
  with roundEven_floor(1) [of m] show ?thesis by linarith
qed

lemma roundEven_upper:
  assumes "m \<le> of_int b"
  shows "roundEven m \<le> b"
proof (cases "m = of_int \<lfloor>m\<rfloor>")
  case True
  then have "roundEven m = \<lfloor>m\<rfloor>" by (simp add: roundEven_def Let_def)
  with assms show ?thesis by (simp add: floor_le_iff)
next
  case False
  have "of_int \<lfloor>m\<rfloor> \<le> m" by (rule of_int_floor_le)
  with False have "of_int \<lfloor>m\<rfloor> < m"
    by (metis order.not_eq_order_implies_strict)
  with assms have "of_int \<lfloor>m\<rfloor> < (of_int b :: real)" by linarith
  then have "\<lfloor>m\<rfloor> < b" by simp
  with roundEven_floor(2) [of m] show ?thesis by linarith
qed

lemma scaled_mantissa:
  assumes "x \<noteq> 0"
  defines "e \<equiv> \<lfloor>log 2 \<bar>x\<bar>\<rfloor> - 52"
  shows "2 ^ 52 \<le> \<bar>x\<bar> / 2 powr of_int e" "\<bar>x\<bar> / 2 powr of_int e < 2 ^ 53"
proof -
  let ?l = "log 2 \<bar>x\<bar>"
  have pos: "0 < \<bar>x\<bar>" using assms by simp
  have x: "\<bar>x\<bar> = 2 powr ?l" using pos by simp
  have "\<bar>x\<bar> / 2 powr of_int e = 2 powr (?l - of_int e)"
    by (subst x) (simp add: powr_diff)
  moreover have "52 \<le> ?l - of_int e" "?l - of_int e < 53"
    unfolding e_def by linarith+
  moreover have "(2::real) ^ 52 = 2 powr 52" "(2::real) ^ 53 = 2 powr 53" by simp_all
  ultimately show "2 ^ 52 \<le> \<bar>x\<bar> / 2 powr of_int e" "\<bar>x\<bar> / 2 powr of_int e < 2 ^ 53"
    by (simp_all only: powr_le_cancel_iff powr_less_cancel_iff)
qed

lemma double_idem: "double (double x) = double x"
proof (cases "x = 0")
  case True
  then show ?thesis by (simp add: double_def)
next
  case False
  define e where "e = \<lfloor>log 2 \<bar>x\<bar>\<rfloor> - 52"
  define s :: real where "s = 2 powr of_int e"
  define n where "n = roundEven (x / s)"
  have s: "0 < s" by (simp add: s_def)
  have y: "double x = of_int n * s"
    using False by (simp add: double_def Let_def e_def s_def n_def)
  have m: "2 ^ 52 \<le> \<bar>x\<bar> / s" "\<bar>x\<bar> / s < 2 ^ 53"
    using scaled_mantissa [OF False] by (simp_all add: s_def e_def)
  have abs_m: "\<bar>x / s\<bar> = \<bar>x\<bar> / s" using s by simp
  have n_bounds: "2 ^ 52 \<le> \<bar>n\<bar> \<and> \<bar>n\<bar> \<le> 2 ^ 53"
  proof (cases "0 \<le> x")
    case True
    with m have lo: "of_int (2 ^ 52) \<le> x / s" and hi: "x / s \<le> of_int (2 ^ 53)"
      by simp_all
    have "2 ^ 52 \<le> n" "n \<le> 2 ^ 53"
      unfolding n_def by (rule roundEven_lower [OF lo], rule roundEven_upper [OF hi])
    then show ?thesis by simp
  next
    case neg: False
    with m s have lo: "of_int (- (2 ^ 53)) \<le> x / s" and hi: "x / s \<le> of_int (- (2 ^ 52))"
      by (simp_all add: field_simps)
    have "- (2 ^ 53) \<le> n" "n \<le> - (2 ^ 52)"
      unfolding n_def by (rule roundEven_lower [OF lo], rule roundEven_upper [OF hi])
    then show ?thesis by simp
  qed
  then have n0: "n \<noteq> 0" by auto
  have lg: "log 2 \<bar>of_int n * s\<bar> = log 2 \<bar>real_of_int n\<bar> + of_int e"
    using n0 s by (simp add: abs_mult log_mult s_def)
  show ?thesis
  proof (cases "\<bar>n\<bar> = 2 ^ 53")
    case True
    then have "\<bar>real_of_int n\<bar> = 2 ^ 53"
      by (metis of_int_abs of_int_numeral of_int_power)
    moreover have "log 2 ((2::real) ^ 53) = 53"
      by (subst log_pow_cancel) simp_all
    ultimately have "log 2 \<bar>real_of_int n\<bar> = 53"
      by (simp only:)
    with lg have fl: "\<lfloor>log 2 \<bar>of_int n * s\<bar>\<rfloor> - 52 = e + 1" by simp
    have s2: "2 powr of_int (e + 1) = 2 * s"
      by (simp add: s_def powr_add)
    from True have "n = 2 ^ 53 \<or> n = - (2 ^ 53)" by linarith
    then have half: "of_int n * s / (2 * s) = real_of_int (n div 2)"
      "real_of_int (n div 2) * (2 * s) = of_int n * s"
      using s by auto
    have "double (of_int n * s)
          = of_int (roundEven (of_int n * s / 2 powr of_int (e + 1))) * 2 powr of_int (e + 1)"
      using n0 s by (simp add: double_def Let_def fl)
    also have "\<dots> = of_int n * s"
      by (simp only: s2 half roundEven_of_int)
    finally have "double (of_int n * s) = of_int n * s" .
    with y show ?thesis by simp
  next
    case False
    with n_bounds have "2 ^ 52 \<le> \<bar>n\<bar>" "\<bar>n\<bar> < 2 ^ 53" by simp_all
    then have "(2::real) ^ 52 \<le> \<bar>real_of_int n\<bar>" "\<bar>real_of_int n\<bar> < 2 ^ 53"
      by (metis of_int_abs of_int_le_iff of_int_numeral of_int_power,
          metis of_int_abs of_int_less_iff of_int_numeral of_int_power)
    then have "52 \<le> log 2 \<bar>real_of_int n\<bar>" "log 2 \<bar>real_of_int n\<bar> < 53"
      using n0 by (simp_all add: le_log_iff log_less_iff)
    with lg have "\<lfloor>log 2 \<bar>of_int n * s\<bar>\<rfloor> = 52 + e"
      by (intro floor_unique) simp_all
    then have fl: "\<lfloor>log 2 \<bar>of_int n * s\<bar>\<rfloor> - 52 = e" by simp
    have "double (of_int n * s)
          = of_int (roundEven (of_int n * s / 2 powr of_int e)) * 2 powr of_int e"
      using n0 s by (simp add: double_def Let_def fl)
    also have "of_int n * s / 2 powr of_int e = of_int n"
      using s by (simp add: s_def)
    also have "of_int (roundEven (of_int n)) * 2 powr of_int e = of_int n * s"
      by (simp only: roundEven_of_int s_def)
    finally have "double (of_int n * s) = of_int n * s" .
    with y show ?thesis by simp
  qed
qed

subsection \<open>One frame in IEEE double arithmetic\<close>

text \<open>
  The rounded value has a mantissa between \<open>2^52\<close> and \<open>2^53\<close> at the exponent of
  the argument, so rounding does not take a number of the normal range below it; and
  rounding to a double is idempotent, for normal and for subnormal results.
\<close>

lemma double_form:
  assumes "x \<noteq> 0"
  obtains n where "double x = of_int n * 2 powr of_int (\<lfloor>log 2 \<bar>x\<bar>\<rfloor> - 52)"
    and "2 ^ 52 \<le> \<bar>n\<bar>" and "\<bar>n\<bar> \<le> 2 ^ 53"
proof -
  define e where "e = \<lfloor>log 2 \<bar>x\<bar>\<rfloor> - 52"
  define s :: real where "s = 2 powr of_int e"
  define n where "n = roundEven (x / s)"
  have s: "0 < s" by (simp add: s_def)
  have y: "double x = of_int n * s"
    using assms by (simp add: double_def Let_def e_def s_def n_def)
  have m: "2 ^ 52 \<le> \<bar>x\<bar> / s" "\<bar>x\<bar> / s < 2 ^ 53"
    using scaled_mantissa [OF assms] by (simp_all add: s_def e_def)
  have "2 ^ 52 \<le> \<bar>n\<bar> \<and> \<bar>n\<bar> \<le> 2 ^ 53"
  proof (cases "0 \<le> x")
    case True
    with m have lo: "of_int (2 ^ 52) \<le> x / s" and hi: "x / s \<le> of_int (2 ^ 53)"
      by simp_all
    have "2 ^ 52 \<le> n" "n \<le> 2 ^ 53"
      unfolding n_def by (rule roundEven_lower [OF lo], rule roundEven_upper [OF hi])
    then show ?thesis by simp
  next
    case False
    with m s have lo: "of_int (- (2 ^ 53)) \<le> x / s" and hi: "x / s \<le> of_int (- (2 ^ 52))"
      by (simp_all add: field_simps)
    have "- (2 ^ 53) \<le> n" "n \<le> - (2 ^ 52)"
      unfolding n_def by (rule roundEven_lower [OF lo], rule roundEven_upper [OF hi])
    then show ?thesis by simp
  qed
  with y that show ?thesis by (simp add: s_def e_def)
qed

lemma double_lower:
  assumes "1 \<le> \<bar>x\<bar> * 2 ^ 1022"
  shows "1 \<le> \<bar>double x\<bar> * 2 ^ 1022"
proof -
  from assms have nz: "x \<noteq> 0" by auto
  from double_form [OF nz] obtain n
    where y: "double x = of_int n * 2 powr of_int (\<lfloor>log 2 \<bar>x\<bar>\<rfloor> - 52)"
      and n: "2 ^ 52 \<le> \<bar>n\<bar>" by blast
  have "(2::real) powr (- 1022) \<le> \<bar>x\<bar>"
    using assms by (simp add: powr_minus powr_realpow field_simps)
  then have "- 1022 \<le> log 2 \<bar>x\<bar>"
    using nz by (simp add: le_log_iff)
  then have fl: "(- 1022 :: int) \<le> \<lfloor>log 2 \<bar>x\<bar>\<rfloor>"
    by (simp add: le_floor_iff)
  have "(2::real) ^ 52 \<le> \<bar>real_of_int n\<bar>"
    using n by (metis of_int_abs of_int_le_iff of_int_numeral of_int_power)
  then have "2 ^ 52 * 2 powr of_int (\<lfloor>log 2 \<bar>x\<bar>\<rfloor> - 52) \<le> \<bar>double x\<bar>"
    unfolding y by (simp add: abs_mult)
  moreover have "(2::real) ^ 52 * 2 powr of_int (\<lfloor>log 2 \<bar>x\<bar>\<rfloor> - 52)
                 = 2 powr of_int \<lfloor>log 2 \<bar>x\<bar>\<rfloor>"
  proof -
    have "(2::real) ^ 52 = 2 powr 52" by simp
    then show ?thesis by (simp only: powr_add [symmetric]) simp
  qed
  moreover have "(2::real) powr (- 1022) \<le> 2 powr of_int \<lfloor>log 2 \<bar>x\<bar>\<rfloor>"
  proof -
    from fl have "real_of_int (- 1022) \<le> real_of_int \<lfloor>log 2 \<bar>x\<bar>\<rfloor>"
      by (simp only: of_int_le_iff)
    then have "(2::real) powr real_of_int (- 1022) \<le> 2 powr of_int \<lfloor>log 2 \<bar>x\<bar>\<rfloor>"
      by (subst powr_le_cancel_iff) simp_all
    then show ?thesis by simp
  qed
  ultimately have "(2::real) powr (- 1022) \<le> \<bar>double x\<bar>" by linarith
  then show ?thesis
    by (simp add: powr_minus powr_realpow field_simps)
qed

lemma round64_zero: "round64 0 = Finite 0"
  by (simp add: round64_def roundEven_def)

lemma round64_idem:
  assumes "round64 x = Finite y"
  shows "round64 y = Finite y"
proof (cases "\<bar>x\<bar> * 2 ^ 1022 < 1")
  case True
  define n where "n = roundEven (x * 2 ^ 1074)"
  from True assms have y: "y = of_int n / 2 ^ 1074"
    by (simp add: round64_def n_def)
  have "\<bar>x * 2 ^ 1074\<bar> = \<bar>x\<bar> * 2 ^ 1022 * 2 ^ 52"
    by (simp add: abs_mult)
  with True have "\<bar>x * 2 ^ 1074\<bar> \<le> 2 ^ 52" by simp
  then have lo: "of_int (- (2 ^ 52)) \<le> x * 2 ^ 1074" and hi: "x * 2 ^ 1074 \<le> of_int (2 ^ 52)"
    by (simp_all add: abs_le_iff)
  have "- (2 ^ 52) \<le> n" "n \<le> 2 ^ 52"
    unfolding n_def by (rule roundEven_lower [OF lo], rule roundEven_upper [OF hi])
  then have nb: "\<bar>n\<bar> \<le> 2 ^ 52" by simp
  have ay: "\<bar>y\<bar> * 2 ^ 1022 = \<bar>real_of_int n\<bar> / 2 ^ 52"
    unfolding y by (simp add: abs_divide)
  have sc: "y * 2 ^ 1074 = of_int n"
    unfolding y by simp
  show ?thesis
  proof (cases "\<bar>n\<bar> = 2 ^ 52")
    case False
    with nb have "\<bar>n\<bar> < 2 ^ 52" by simp
    then have "\<bar>real_of_int n\<bar> < 2 ^ 52"
      by (metis of_int_abs of_int_less_iff of_int_numeral of_int_power)
    then have "\<bar>y\<bar> * 2 ^ 1022 < 1"
      unfolding ay by simp
    then have "round64 y = Finite (of_int (roundEven (y * 2 ^ 1074)) / 2 ^ 1074)"
      by (simp add: round64_def)
    then show ?thesis
      by (simp only: sc roundEven_of_int y [symmetric])
  next
    case eq: True
    then have an: "\<bar>real_of_int n\<bar> = 2 ^ 52"
      by (metis of_int_abs of_int_numeral of_int_power)
    then have normal: "\<not> \<bar>y\<bar> * 2 ^ 1022 < 1"
      unfolding ay by simp
    have "\<bar>y\<bar> * 2 ^ 1074 = 2 ^ 52"
      unfolding y using an by (simp add: abs_divide)
    then have "double y = of_int (roundEven (y * 2 ^ 1074)) / 2 ^ 1074"
      by (intro double_scaled) simp_all
    then have d: "double y = y"
      by (simp add: sc roundEven_of_int y)
    have "\<bar>y\<bar> = 1 / 2 ^ 1022"
      using ay an by (simp add: field_simps)
    then have "\<bar>y\<bar> < 2 ^ 1024" by simp
    with normal d show ?thesis
      by (simp add: round64_def)
  qed
next
  case False
  with assms have y: "y = double x" and fin: "\<not> 2 ^ 1024 \<le> \<bar>double x\<bar>"
    by (simp_all add: round64_def infOf_def split: if_splits)
  from False have "1 \<le> \<bar>x\<bar> * 2 ^ 1022" by simp
  from double_lower [OF this] have "\<not> \<bar>y\<bar> * 2 ^ 1022 < 1"
    by (simp add: y)
  moreover have "double y = y" by (simp add: y double_idem)
  ultimately show ?thesis
    using fin by (simp add: round64_def y)
qed

text \<open>Powers of two: a double up to \<open>2^1023\<close>, \<open>Infinity\<close> from \<open>2^1024\<close>.\<close>

lemma double_power2: "double (2 ^ n) = 2 ^ n"
proof -
  have lg: "log 2 \<bar>(2::real) ^ n\<bar> = real n"
    by (simp add: log_nat_power)
  have fl: "\<lfloor>log 2 \<bar>(2::real) ^ n\<bar>\<rfloor> = int n"
    unfolding lg by simp
  have m: "(2::real) ^ n / 2 powr of_int (int n - 52) = of_int (2 ^ 52)"
  proof -
    have "(2::real) ^ n = 2 powr real n" by (simp add: powr_realpow)
    then have "(2::real) ^ n / 2 powr of_int (int n - 52) = 2 powr (real n - (real n - 52))"
      by (simp only: powr_diff [symmetric]) simp
    also have "\<dots> = 2 powr 52" by simp
    also have "\<dots> = of_int (2 ^ 52)" by simp
    finally show ?thesis .
  qed
  have unscale: "real_of_int (2 ^ 52) * 2 powr of_int (int n - 52) = 2 ^ n"
  proof -
    have "real_of_int (2 ^ 52) = 2 powr 52" by simp
    then have "real_of_int (2 ^ 52) * 2 powr of_int (int n - 52) = 2 powr (52 + (real n - 52))"
      by (simp only: powr_add) simp
    also have "\<dots> = 2 powr real n" by simp
    finally show ?thesis by (simp add: powr_realpow)
  qed
  have "double (2 ^ n)
        = of_int (roundEven (2 ^ n / 2 powr of_int (int n - 52))) * 2 powr of_int (int n - 52)"
    by (simp add: double_def Let_def fl)
  then show ?thesis
    by (simp only: m roundEven_of_int unscale)
qed

lemma round64_power2:
  "n < 1024 \<Longrightarrow> round64 (2 ^ n) = Finite (2 ^ n)"
  "1024 \<le> n \<Longrightarrow> round64 (2 ^ n) = PosInf"
proof -
  have normal: "\<not> \<bar>(2::real) ^ n\<bar> * 2 ^ 1022 < 1"
  proof -
    have "(1::real) \<le> 2 ^ n" "(1::real) \<le> 2 ^ 1022" by simp_all
    then have "(1::real) * 1 \<le> 2 ^ n * 2 ^ 1022" by (rule mult_mono) simp_all
    then show ?thesis by simp
  qed
  show "round64 (2 ^ n) = Finite (2 ^ n)" if "n < 1024"
  proof -
    from that have "(2::real) ^ n < 2 ^ 1024"
      by (simp only: power_strict_increasing_iff)
    then have "\<not> (2::real) ^ 1024 \<le> \<bar>2 ^ n\<bar>" by simp
    with normal show ?thesis
      by (simp only: round64_def double_power2 if_False)
  qed
  show "round64 (2 ^ n) = PosInf" if "1024 \<le> n"
  proof -
    from that have "(2::real) ^ 1024 \<le> 2 ^ n"
      by (simp only: power_increasing_iff)
    then have "(2::real) ^ 1024 \<le> \<bar>2 ^ n\<bar>" by simp
    moreover have "(0::real) < 2 ^ n" by simp
    ultimately show ?thesis
      using normal by (simp only: round64_def double_power2 if_False if_True infOf_def)
  qed
qed

lemma hugeValue_double: "round64 hugeValue = Finite hugeValue"
  unfolding hugeValue_def by (rule round64_power2) simp

lemma hugeValue_square: "round64 (hugeValue * hugeValue) = PosInf"
proof -
  have "hugeValue * hugeValue = 2 ^ 1200"
    unfolding hugeValue_def by (simp only: power_add [symmetric]) simp
  moreover have "round64 (2 ^ 1200) = PosInf"
    by (rule round64_power2) simp
  ultimately show ?thesis by (simp only:)
qed

text \<open>Evaluation of a rounding in the normal range, and the values of the frame
  \<open>oneFrame\<close> and their squares.\<close>

lemma round64_eval:
  assumes "1 \<le> \<bar>x\<bar> * 2 ^ 1022" "2 ^ 52 \<le> \<bar>x\<bar> * 2 ^ k" "\<bar>x\<bar> * 2 ^ k < 2 ^ 53"
    and "roundEven (x * 2 ^ k) = n" and "y = of_int n / 2 ^ k" and "\<bar>y\<bar> < 2 ^ 1024"
  shows "round64 x = Finite y"
proof -
  have "double x = y"
    by (rule double_eval [OF assms(2,3,4,5)])
  with assms(1,6) show ?thesis
    by (simp add: round64_def)
qed

lemma small_doubles:
  "round64 1 = Finite 1" "round64 2 = Finite 2" "round64 4 = Finite 4"
  "round64 1000 = Finite 1000" "round64 1000000 = Finite 1000000"
  "round64 (1 / 2) = Finite (1 / 2)" "round64 (1 / 4) = Finite (1 / 4)"
  "round64 (1 / 16) = Finite (1 / 16)"
  by (rule round64_eval [where k = 52 and n = "2 ^ 52"], simp_all add: roundEven_def)
     (rule round64_eval [where k = 51 and n = "2 ^ 52"], simp_all add: roundEven_def,
      rule round64_eval [where k = 50 and n = "2 ^ 52"], simp_all add: roundEven_def,
      rule round64_eval [where k = 43 and n = "1000 * 2 ^ 43"], simp_all add: roundEven_def,
      rule round64_eval [where k = 33 and n = "1000000 * 2 ^ 33"], simp_all add: roundEven_def,
      rule round64_eval [where k = 53 and n = "2 ^ 52"], simp_all add: roundEven_def,
      rule round64_eval [where k = 54 and n = "2 ^ 52"], simp_all add: roundEven_def,
      rule round64_eval [where k = 56 and n = "2 ^ 52"], simp_all add: roundEven_def)

lemma oneFrame_squarable: "list_all squarable (descriptors oneFrame)"
  by (simp add: descriptors_def oneFrame_def squarable_def small_doubles round64_zero)

text \<open>
  For one frame the sum is the value, the mean is the value, and the sum of squares and
  its mean are the rounded square; the square of the mean is the same rounded square,
  and the difference is 0, as long as the rounded square is finite.
\<close>

lemma squarable_roundings:
  assumes "squarable v"
  obtains q where "round64 v = Finite v" and "round64 (v * v) = Finite q"
    and "round64 q = Finite q"
proof -
  from assms have v: "round64 v = Finite v"
    by (simp add: squarable_def)
  from assms obtain q where q: "round64 (v * v) = Finite q"
    by (cases "round64 (v * v)") (simp_all add: squarable_def)
  from v q round64_idem [OF q] that show ?thesis by blast
qed

lemma single_variance64:
  assumes "squarable (field f)"
  shows "varianceOf64 field [f] = Finite 0"
proof -
  from squarable_roundings [OF assms] obtain q
    where r: "round64 (field f) = Finite (field f)" "round64 (field f * field f) = Finite q"
      "round64 q = Finite q" by blast
  show ?thesis
    by (simp add: varianceOf64_def meanOf64_def sumOf64_def sumSqOf64_def r fsub_def round64_zero)
qed

lemma single_mfccVariance64:
  assumes "list_all squarable (mfcc f)"
  shows "map (\<lambda>i. fsub (fdiv (mfccSquareSums64 [f] ! i) (Finite 1))
                     (fmul (fdiv (mfccSums64 [f] ! i) (Finite 1)) (fdiv (mfccSums64 [f] ! i) (Finite 1))))
           [0 ..< length (mfccSums64 [f])]
         = replicate (length (mfcc f)) (Finite 0)"
proof -
  have zip: "addInto64 (replicate (length vs) (Finite 0)) vs = map (\<lambda>v. fadd (Finite 0) v) vs" for vs
    by (induction vs) simp_all
  have sums: "mfccSums64 [f] = map (\<lambda>v. fadd (Finite 0) (Finite v)) (mfcc f)"
    using zip [of "map Finite (mfcc f)"] by (simp add: mfccSums64_def comp_def)
  have sqs: "mfccSquareSums64 [f]
             = map (\<lambda>v. fadd (Finite 0) (fmul (Finite v) (Finite v))) (mfcc f)"
    using zip [of "map (\<lambda>v. fmul (Finite v) (Finite v)) (mfcc f)"]
    by (simp add: mfccSquareSums64_def comp_def)
  have entry: "fsub (fdiv (mfccSquareSums64 [f] ! i) (Finite 1))
                 (fmul (fdiv (mfccSums64 [f] ! i) (Finite 1)) (fdiv (mfccSums64 [f] ! i) (Finite 1)))
               = Finite 0" if i: "i < length (mfcc f)" for i
  proof -
    from assms i have "squarable (mfcc f ! i)" by (simp add: list_all_length)
    from squarable_roundings [OF this] obtain q
      where r: "round64 (mfcc f ! i) = Finite (mfcc f ! i)"
        "round64 (mfcc f ! i * mfcc f ! i) = Finite q" "round64 q = Finite q" by blast
    show ?thesis
      using i by (simp add: sums sqs r fsub_def round64_zero)
  qed
  have len: "length (mfccSums64 [f]) = length (mfcc f)"
    by (simp add: sums)
  show ?thesis
    by (rule nth_equalityI) (simp_all add: len entry)
qed

text \<open>
  C3 (as amended): for an empty frame sequence \<open>aggregateFeatures\<close> fails (it throws
  the error \<open>No features to aggregate\<close>, the empty-input error, and returns no
  profile); for exactly one frame whose descriptors are doubles with squares that do not
  overflow, it returns, in double arithmetic, a profile whose ten scalar variances are 0
  and whose MFCC variance has one entry 0 for each MFCC coefficient of the frame.
\<close>

theorem aggregate64_empty_and_single:
  assumes "list_all squarable (descriptors f)"
  shows "aggregateFeatures64 [] = Inl (Error ''No features to aggregate'')
   \<and> (\<exists>P. aggregateFeatures64 [f] = Inr P
        \<and> mfccVariance64 P = replicate (length (mfcc f)) (Finite 0)
        \<and> spectralCentroidVariance64 P = Finite 0 \<and> spectralFlatnessVariance64 P = Finite 0
        \<and> spectralRolloffVariance64 P = Finite 0 \<and> spectralFluxVariance64 P = Finite 0
        \<and> perceptualSpreadVariance64 P = Finite 0 \<and> perceptualSharpnessVariance64 P = Finite 0
        \<and> spectralKurtosisVariance64 P = Finite 0 \<and> zcrVariance64 P = Finite 0
        \<and> rmsVariance64 P = Finite 0 \<and> energyVariance64 P = Finite 0)"
proof -
  from assms have m: "list_all squarable (mfcc f)"
    and s: "squarable (spectralCentroid f)" "squarable (spectralFlatness f)"
      "squarable (spectralRolloff f)" "squarable (spectralFlux f)"
      "squarable (perceptualSpread f)" "squarable (perceptualSharpness f)"
      "squarable (spectralKurtosis f)" "squarable (zcr f)" "squarable (rms f)"
      "squarable (energy f)"
    by (simp_all add: descriptors_def)
  show ?thesis
    by (simp add: aggregateFeatures64_def Let_def single_variance64 s single_mfccVariance64 [OF m])
qed

theorem aggregate64_empty_and_single_witness:
  "list_all squarable (descriptors oneFrame)
   \<and> aggregateFeatures64 [] = Inl (Error ''No features to aggregate'')
   \<and> (\<exists>P. aggregateFeatures64 [oneFrame] = Inr P
        \<and> mfccVariance64 P = [Finite 0, Finite 0]
        \<and> spectralCentroidVariance64 P = Finite 0 \<and> energyVariance64 P = Finite 0)"
proof -
  have h: "list_all squarable (descriptors oneFrame)"
    by (rule oneFrame_squarable)
  have "length (mfcc oneFrame) = Suc (Suc 0)"
    by (simp add: oneFrame_def)
  with h aggregate64_empty_and_single [OF h] show ?thesis
    by (simp only: replicate.simps) blast
qed

text \<open>
  C3 as stated has every variance exactly 0 for every single frame.  For one frame with
  the MFCC coefficient \<open>2^600\<close> the square overflows: the sum of squares and the
  square of the mean are both \<open>Infinity\<close>, and the MFCC variance, their difference,
  is \<open>NaN\<close>.
\<close>

theorem huge_frame_variance_NaN:
  "(case aggregateFeatures64 [hugeFrame] of
      Inl e \<Rightarrow> False
    | Inr P \<Rightarrow> mfccVariance64 P = [NotANumber])"
  by (simp add: aggregateFeatures64_def Let_def mfccSums64_def mfccSquareSums64_def hugeFrame_def
        hugeValue_double hugeValue_square fsub_def infOf_def)

section \<open>Properties of the quick validation\<close>

text \<open>The loop computes the root of the mean square of the first 2048 samples (of all
  samples when there are fewer).\<close>

lemma foldl_squares_take:
  "n \<le> length xs \<Longrightarrow>
   foldl (\<lambda>acc i. acc + xs ! i * xs ! i) a [0 ..< n] = a + sum_list (map (\<lambda>x. x * x) (take n xs))"
  for a :: real
proof (induction n)
  case 0
  then show ?case by simp
next
  case (Suc n)
  then have "take (Suc n) xs = take n xs @ [xs ! n]"
    by (simp add: take_Suc_conv_app_nth)
  with Suc show ?case by simp
qed

lemma leadingRms_eq:
  "leadingRms xs =
     sqrt (sum_list (map (\<lambda>x. x * x) (take 2048 xs)) / real (min 2048 (length xs)))"
proof -
  have "take (min 2048 (length xs)) xs = take 2048 xs"
    by (simp add: min_def)
  then show ?thesis
    by (simp add: leadingRms_def Let_def foldl_squares_take)
qed

text \<open>
  C7: a blob of fewer than 1000 bytes (the threshold the source calls 1KB) or of more
  than \<open>50 * 1024 * 1024\<close> bytes is rejected.  For a blob in between, a failed decode
  gives \<open>True\<close>, and a successful decode gives \<open>False\<close> when the duration is below
  0.5 s, when there are fewer than 512 samples, or when the RMS of the leading window
  is not above the floor 0.0001, and \<open>True\<close> otherwise.
\<close>

theorem quickValidate_cases:
  "(size blob < 1000 \<longrightarrow> \<not> quickProcessVoiceAudio decode blob)
   \<and> (size blob > 50 * 1024 * 1024 \<longrightarrow> \<not> quickProcessVoiceAudio decode blob)
   \<and> (1000 \<le> size blob \<and> size blob \<le> 50 * 1024 * 1024 \<longrightarrow>
        (decode blob = None \<longrightarrow> quickProcessVoiceAudio decode blob)
        \<and> (\<forall>buf. decode blob = Some buf \<longrightarrow>
              quickProcessVoiceAudio decode blob =
                (\<not> duration buf < 0.5 \<and> \<not> length (channelData buf) < 512
                 \<and> sqrt (sum_list (map (\<lambda>x. x * x) (take 2048 (channelData buf)))
                          / real (min 2048 (length (channelData buf)))) > 0.0001)))"
  by (auto simp: quickProcessVoiceAudio_def leadingRms_eq)

theorem quickValidate_cases_witness:
  "\<not> quickProcessVoiceAudio exampleDecode tinyBlob
   \<and> \<not> quickProcessVoiceAudio exampleDecode hugeBlob
   \<and> quickProcessVoiceAudio exampleDecode brokenBlob
   \<and> quickProcessVoiceAudio exampleDecode goodBlob"
proof -
  have "(0.0001::real) < sqrt (1 / 4)"
    by (rule real_less_rsqrt) (simp add: power2_eq_square)
  then show ?thesis
    using quickValidate_cases [of tinyBlob exampleDecode]
      quickValidate_cases [of hugeBlob exampleDecode]
      quickValidate_cases [of brokenBlob exampleDecode]
      quickValidate_cases [of goodBlob exampleDecode]
    by (simp add: tinyBlob_def hugeBlob_def brokenBlob_def goodBlob_def exampleDecode_def
          goodBuffer_def sum_list_replicate)
qed

end
